theory Spec2Isabelle
  imports Complex_Main "HOL-Library.Word"
begin

section \<open>Python strings\<close>

text \<open>
  A Python \<open>str\<close> is a sequence of Unicode code points, so a string is a list of
  naturals and \<open>len\<close> is \<open>length\<close>. \<open>lit\<close> turns an ASCII literal of the
  source into that representation; \<open>ord\<close> of a character is its code point.
\<close>

type_synonym pystr = "nat list"

definition lit :: "string \<Rightarrow> pystr" where
  "lit s = map of_char s"

definition spaces :: "int \<Rightarrow> pystr" where
  \<comment> \<open>\<open>" " * n\<close>: the empty string when \<open>n\<close> is not positive\<close>
  "spaces n = replicate (nat n) 32"

section \<open>Sanitizing strings\<close>

text \<open>
  \<open>str.strip()\<close> removes from both ends the characters for which \<open>str.isspace\<close>
  holds: the ASCII blanks and separators, and the Unicode spaces beyond ASCII.
\<close>

definition py_isspace :: "nat \<Rightarrow> bool" where
  "py_isspace c \<longleftrightarrow>
     (9 \<le> c \<and> c \<le> 13) \<or> (28 \<le> c \<and> c \<le> 32) \<or> c = 133 \<or> c = 160 \<or> c = 5760 \<or>
     (8192 \<le> c \<and> c \<le> 8202) \<or> c = 8232 \<or> c = 8233 \<or> c = 8239 \<or> c = 8287 \<or>
     c = 12288"

definition py_rstrip :: "pystr \<Rightarrow> pystr" where
  "py_rstrip s = rev (dropWhile py_isspace (rev s))"

definition py_strip :: "pystr \<Rightarrow> pystr" where
  "py_strip s = py_rstrip (dropWhile py_isspace s)"

definition startswith :: "pystr \<Rightarrow> pystr \<Rightarrow> bool" where
  "startswith s p \<longleftrightarrow> take (length p) s = p"

definition endswith :: "pystr \<Rightarrow> pystr \<Rightarrow> bool" where
  "endswith s p \<longleftrightarrow> length p \<le> length s \<and> drop (length s - length p) s = p"

text \<open>
  \<open>clean_string\<close> calls \<open>unidecode\<close> of the package of that name, which is not part of
  this repository: it is the argument \<open>ud\<close>, any function from strings to strings.
\<close>

definition clean_string :: "(pystr \<Rightarrow> pystr) \<Rightarrow> pystr \<Rightarrow> pystr" where
  "clean_string ud text0 =
     (let text = filter (\<lambda>c. c \<noteq> 0) text0;
          text = filter (\<lambda>c. c \<noteq> 13) text;
          text = map (\<lambda>c. if c = 10 then 32 else c) text
      in py_strip (filter (\<lambda>c. 32 \<le> c \<and> c \<le> 126) (ud text)))"

section \<open>More of Python's strings\<close>

text \<open>\<open>str(n)\<close> of an integer, as the f-strings of the source format it.\<close>

fun nat_digits :: "nat \<Rightarrow> pystr" where
  "nat_digits n = (if n < 10 then [48 + n] else nat_digits (n div 10) @ [48 + n mod 10])"

definition py_str :: "int \<Rightarrow> pystr" where
  "py_str i = (if i < 0 then 45 # nat_digits (nat (- i)) else nat_digits (nat i))"

text \<open>\<open>s.find(c)\<close> for a single character: the first index of \<open>c\<close>, or \<open>-1\<close>.\<close>

definition py_find :: "pystr \<Rightarrow> nat \<Rightarrow> int" where
  "py_find s c = (if c \<in> set s then int (length (takeWhile (\<lambda>x. x \<noteq> c) s)) else - 1)"

text \<open>
  \<open>s[i:j]\<close> and \<open>s[i:]\<close>: a negative index counts from the end, and indices beyond
  either end are clipped.
\<close>

definition clip_index :: "nat \<Rightarrow> int \<Rightarrow> nat" where
  "clip_index n i = (if i < 0 then nat (max 0 (int n + i)) else min (nat i) n)"

definition py_slice :: "pystr \<Rightarrow> int \<Rightarrow> int \<Rightarrow> pystr" where
  "py_slice s i j =
     (let lo = clip_index (length s) i; hi = clip_index (length s) j
      in take (hi - lo) (drop lo s))"

definition py_slice_from :: "pystr \<Rightarrow> int \<Rightarrow> pystr" where
  "py_slice_from s i = drop (clip_index (length s) i) s"

text \<open>
  \<open>top, bottom = body.split("|", 1)\<close> when \<open>"|"\<close> occurs in \<open>body\<close>: the text before
  the first bar and the text after it.
\<close>

definition before_bar :: "pystr \<Rightarrow> pystr" where
  "before_bar body = takeWhile (\<lambda>c. c \<noteq> 124) body"

definition after_bar :: "pystr \<Rightarrow> pystr" where
  "after_bar body = drop 1 (dropWhile (\<lambda>c. c \<noteq> 124) body)"

text \<open>\<open>x or y\<close> on strings: \<open>y\<close> when \<open>x\<close> is empty.\<close>

definition or_else :: "pystr \<Rightarrow> pystr \<Rightarrow> pystr" where
  "or_else x y = (if x = [] then y else x)"

section \<open>Python's \<open>int(s, base)\<close>\<close>

text \<open>
  The functions that parse integers take the parser as the argument \<open>pint\<close>
  (\<open>pint base s\<close> is \<open>None\<close> where \<open>int(s, base)\<close> raises \<open>ValueError\<close>), so the
  theorems about them hold for whatever \<open>int\<close> accepts. \<open>ascii_int\<close> is CPython's
  parser on strings of ASCII characters: blanks around the number, a sign, the
  \<open>0x\<close> prefix of base 16, digits and letters as digits, single underscores
  between digits. Strings with characters beyond ASCII (Unicode digits and spaces) are
  outside its domain and give \<open>None\<close>, and so is the length limit of decimal strings.
\<close>

definition c_isspace :: "nat \<Rightarrow> bool" where
  "c_isspace c \<longleftrightarrow> (9 \<le> c \<and> c \<le> 13) \<or> c = 32"

definition digit_value :: "nat \<Rightarrow> nat" where
  "digit_value c =
     (if 48 \<le> c \<and> c \<le> 57 then c - 48
      else if 97 \<le> c \<and> c \<le> 122 then c - 87
      else if 65 \<le> c \<and> c \<le> 90 then c - 55
      else 37)"

fun scan_digits :: "nat \<Rightarrow> nat \<Rightarrow> int \<Rightarrow> pystr \<Rightarrow> (int \<times> pystr) option" where
  "scan_digits base prev acc [] = (if prev = 95 then None else Some (acc, []))"
| "scan_digits base prev acc (c # cs) =
     (if c = 95 then (if prev = 95 then None else scan_digits base c acc cs)
      else if digit_value c < base
        then scan_digits base c (acc * int base + int (digit_value c)) cs
      else if prev = 95 then None
      else Some (acc, c # cs))"

definition ascii_int :: "nat \<Rightarrow> pystr \<Rightarrow> int option" where
  "ascii_int base s =
     (if \<exists>c \<in> set s. c \<ge> 128 then None
      else
        (let s1 = dropWhile c_isspace s;
             neg = (take 1 s1 = [45]);
             s2 = (if take 1 s1 = [43] \<or> take 1 s1 = [45] then drop 1 s1 else s1);
             s3 = (if base = 16 \<and> (take 2 s2 = [48, 120] \<or> take 2 s2 = [48, 88])
                   then (if take 1 (drop 2 s2) = [95] then drop 3 s2 else drop 2 s2)
                   else s2)
         in if take 1 s3 = [95] then None
            else
              (case scan_digits base 0 0 s3 of
                 None \<Rightarrow> None
               | Some (v, rest) \<Rightarrow>
                   if length rest = length s3 then None
                   else if dropWhile c_isspace rest \<noteq> [] then None
                   else Some (if neg then - v else v))))"

section \<open>Exceptions and loops\<close>

text \<open>
  The exceptions the modelled code can raise. A computation on a mutable object either
  returns normally with the object's new state, or raises with the state the object
  had reached at that moment: Python does not undo the writes made before a raise.
\<close>

datatype exn = ValueError | IndexError

datatype 'a res = Ok 'a | Raise exn 'a

text \<open>\<open>for i in is: body\<close>, stopping at the first raise.\<close>

primrec for_each :: "'i list \<Rightarrow> ('i \<Rightarrow> 's \<Rightarrow> 's res) \<Rightarrow> 's \<Rightarrow> 's res" where
  "for_each [] body s = Ok s"
| "for_each (i # is) body s =
     (case body i s of Ok s' \<Rightarrow> for_each is body s' | Raise e s' \<Rightarrow> Raise e s')"

text \<open>
  \<open>try: ... except Exception: pass\<close>: both exceptions above are subclasses of
  \<open>Exception\<close>, so the handler catches them and execution goes on with the state
  reached.
\<close>

fun except_pass :: "'a res \<Rightarrow> 'a" where
  "except_pass (Ok s) = s"
| "except_pass (Raise e s) = s"

text \<open>A list of rows; \<open>g[y][x] = v\<close> raises \<open>IndexError\<close> outside the grid.\<close>

type_synonym grid = "int list list"

definition set_cell :: "nat \<Rightarrow> nat \<Rightarrow> int \<Rightarrow> grid \<Rightarrow> grid res" where
  "set_cell y x v g =
     (if y < length g \<and> x < length (g ! y) then Ok (g[y := (g ! y)[x := v]])
      else Raise IndexError g)"

section \<open>Serial link\<close>

text \<open>
  The serial port is a device outside the program. Of \<open>SerialLink\<close> the model keeps
  whether the port is open, the byte strings handed to \<open>ser.write\<close> (oldest first),
  the number of \<open>flush\<close> calls and \<open>last_tx\<close>. What the device does with a call is
  an input of \<open>send_line\<close>: the write and the flush succeed, or one of them raises.
  The audit log is not modelled.
\<close>

record serial_link =
  port_open :: bool
  written :: "nat list list"
  flushes :: nat
  last_tx :: real

datatype device_outcome = Device_ok | Write_raises | Flush_raises

definition is_open :: "serial_link \<Rightarrow> bool" where
  "is_open l = port_open l"

definition encode_ascii_ignore :: "pystr \<Rightarrow> nat list" where
  \<comment> \<open>\<open>s.encode("ascii", errors="ignore")\<close>: characters beyond ASCII are dropped\<close>
  "encode_ascii_ignore s = filter (\<lambda>c. c < 128) s"

definition send_line ::
  "(pystr \<Rightarrow> pystr) \<Rightarrow> device_outcome \<Rightarrow> real \<Rightarrow> pystr \<Rightarrow> serial_link \<Rightarrow> bool \<times> serial_link" where
  "send_line ud dev now line l =
     (if \<not> is_open l then (False, l)
      else
        (let s = clean_string ud line;
             s = (if \<not> endswith s [10] then s @ [10] else s);
             is_vu = (startswith s (lit ''V:'') \<or> startswith s (lit ''CH:''));
             l = l\<lparr>written := written l @ [encode_ascii_ignore s]\<rparr>
         in if dev = Write_raises then (False, l)
            else if is_vu then (True, l\<lparr>last_tx := now\<rparr>)
            else
              (let l = l\<lparr>flushes := flushes l + 1\<rparr>
               in if dev = Flush_raises then (False, l)
                  else (True, l\<lparr>last_tx := now\<rparr>))))"

definition link_open :: serial_link where
  "link_open = \<lparr>port_open = True, written = [], flushes = 0, last_tx = 0\<rparr>"

section \<open>LCD emulator: line padding\<close>

definition pad16 :: "pystr \<Rightarrow> pystr" where
  "pad16 s0 =
     (let s = (if length s0 > 16 then take 16 s0 else s0)
      in s @ spaces (16 - int (length s)))"

section \<open>LCD emulator (16x2)\<close>

definition then_do :: "'a res \<Rightarrow> ('a \<Rightarrow> 'a res) \<Rightarrow> 'a res" where
  \<comment> \<open>one statement after another: the second does not run when the first raises\<close>
  "then_do r f = (case r of Ok s \<Rightarrow> f s | Raise e s \<Rightarrow> Raise e s)"

definition VISIT_BAR_CHARS :: "int list list" where
  "VISIT_BAR_CHARS =
     [[0,0,0,0,0,0,0,0],
      [0,0,0,0,0,0,0,31],
      [0,0,0,0,0,0,31,31],
      [0,0,0,0,0,31,31,31],
      [0,0,0,0,31,31,31,31],
      [0,0,0,31,31,31,31,31],
      [0,0,31,31,31,31,31,31],
      [0,31,31,31,31,31,31,31]]"

text \<open>The icon tables, with the binary literals of the source written in decimal.\<close>

definition MUSIC_ICONS :: "(nat \<times> int list) list" where
  "MUSIC_ICONS =
     [(0, [0, 7, 13, 9, 11, 27, 24, 0]),
      (1, [0, 8, 12, 14, 14, 12, 8, 0]),
      (2, [0, 1, 5, 21, 21, 21, 0, 0]),
      (3, [0, 2, 6, 30, 30, 6, 2, 0])]"

definition SYSTEM_ICONS :: "(nat \<times> int list) list" where
  "SYSTEM_ICONS =
     [(0, [0, 10, 31, 14, 31, 10, 0, 0]),
      (1, [0, 31, 31, 31, 4, 14, 0, 0]),
      (2, [0, 0, 31, 31, 31, 21, 0, 0])]"

datatype lcd_mode = VISIT | MUSIC | CLOCK | TEXT | SYSTEM | SCREEN

record lcd =
  mode :: lcd_mode
  ddram :: grid
  cgram :: "nat \<rightharpoonup> int list"
  visit_anim_active :: bool
  box_step :: int
  last_anim :: real
  anim_interval :: real
  scroll_top :: pystr
  scroll_bottom :: pystr
  scroll_i_top :: int
  scroll_i_bottom :: int
  last_scroll :: real
  scroll_interval :: real
  volume_overlay :: bool
  vol_until :: real
  last_visit_astro :: int
  last_visit_core :: int

definition blank_ddram :: grid where
  "blank_ddram = [replicate 16 32, replicate 16 32]"

definition visit_bars :: "nat \<rightharpoonup> int list" where
  \<comment> \<open>\<open>{i: _VISIT_BAR_CHARS[i][:] for i in range(8)}\<close>\<close>
  "visit_bars = map_of (map (\<lambda>i. (i, VISIT_BAR_CHARS ! i)) [0..<8])"

definition load_icons :: "(nat \<times> int list) list \<Rightarrow> (nat \<rightharpoonup> int list) \<Rightarrow> (nat \<rightharpoonup> int list)" where
  \<comment> \<open>\<open>for i in range(8): cgram[i] = [0]*8\<close>, then \<open>for k, v in icons.items(): cgram[k] = v[:]\<close>\<close>
  "load_icons icons cg =
     fold (\<lambda>(k, v) m. m(k \<mapsto> v)) icons (fold (\<lambda>i m. m(i \<mapsto> replicate 8 0)) [0..<8] cg)"

definition lcd_init :: lcd where
  "lcd_init =
     \<lparr>mode = VISIT, ddram = blank_ddram, cgram = visit_bars, visit_anim_active = False,
      box_step = 0, last_anim = 0, anim_interval = 9 / 10,
      scroll_top = [], scroll_bottom = [], scroll_i_top = 0, scroll_i_bottom = 0,
      last_scroll = 0, scroll_interval = 3 / 4, volume_overlay = False, vol_until = 0,
      last_visit_astro = 0, last_visit_core = 0\<rparr>"

definition with_ddram :: "lcd \<Rightarrow> grid res \<Rightarrow> lcd res" where
  "with_ddram st r =
     (case r of Ok g \<Rightarrow> Ok (st\<lparr>ddram := g\<rparr>) | Raise e g \<Rightarrow> Raise e (st\<lparr>ddram := g\<rparr>))"

definition clear :: "lcd \<Rightarrow> lcd" where
  "clear st = st\<lparr>ddram := blank_ddram\<rparr>"

definition write_line :: "nat \<Rightarrow> pystr \<Rightarrow> lcd \<Rightarrow> lcd res" where
  "write_line row text16 st =
     with_ddram st
       (for_each (enumerate 0 (take 16 (pad16 text16)))
          (\<lambda>(i, ch). set_cell row i (int ch)) (ddram st))"

definition write_icon_prefix_line :: "nat \<Rightarrow> int \<Rightarrow> pystr \<Rightarrow> lcd \<Rightarrow> lcd res" where
  "write_icon_prefix_line row icon_index text0 st =
     (let t = (if length text0 > 14 then take 14 text0 else text0);
          t = t @ spaces (14 - int (length t))
      in with_ddram st
           (then_do (set_cell row 0 (and icon_index 255) (ddram st)) (\<lambda>g.
            then_do (set_cell row 1 32 g) (\<lambda>g.
            for_each [0..<14] (\<lambda>i. set_cell row (i + 2) (int (t ! i))) g))))"

definition draw_visit_header_counts :: "int \<Rightarrow> int \<Rightarrow> lcd \<Rightarrow> lcd res" where
  "draw_visit_header_counts astro core st0 =
     (let st = st0\<lparr>last_visit_astro := astro\<rparr>;
          st = st\<lparr>last_visit_core := core\<rparr>;
          top = pad16 (lit ''Live Visit Count'');
          bottom15 = lit ''ARI:'' @ py_str astro @ lit '' CC:'' @ py_str core;
          bottom15 = (if length bottom15 > 15 then take 15 bottom15 else bottom15);
          bottom15 = bottom15 @ spaces (15 - int (length bottom15))
      in then_do (write_line 0 top st) (\<lambda>st.
         then_do (with_ddram st
                    (for_each (enumerate 0 bottom15) (\<lambda>(i, ch). set_cell 1 i (int ch))
                       (ddram st))) (\<lambda>st.
         with_ddram st (set_cell 1 15 (box_step st) (ddram st)))))"

definition enter_visit :: "lcd \<Rightarrow> lcd res" where
  "enter_visit st0 =
     (let st = st0\<lparr>mode := VISIT\<rparr>;
          st = clear st;
          st = st\<lparr>cgram := visit_bars\<rparr>;
          st = st\<lparr>visit_anim_active := False\<rparr>;
          st = st\<lparr>box_step := 0\<rparr>
      in draw_visit_header_counts 0 0 st)"

definition enter_music :: "lcd \<Rightarrow> lcd res" where
  "enter_music st0 =
     (let st = st0\<lparr>mode := MUSIC\<rparr>;
          st = clear st;
          st = st\<lparr>cgram := load_icons MUSIC_ICONS (cgram st)\<rparr>
      in then_do (write_icon_prefix_line 0 0 (lit ''Music Mode'') st)
           (write_icon_prefix_line 1 1 (lit ''Loading...'')))"

definition enter_clock :: "lcd \<Rightarrow> lcd res" where
  "enter_clock st0 =
     (let st = st0\<lparr>mode := CLOCK\<rparr>;
          st = clear st
      in then_do (write_line 0 (pad16 (lit ''Clock Mode'')) st)
           (write_line 1 (pad16 (lit ''Loading...''))))"

definition enter_text :: "lcd \<Rightarrow> lcd res" where
  "enter_text st0 =
     (let st = st0\<lparr>mode := TEXT\<rparr>;
          st = clear st
      in then_do (write_line 0 (pad16 (lit ''Text Mode'')) st)
           (write_line 1 (pad16 (lit ''Loading...''))))"

definition enter_system :: "lcd \<Rightarrow> lcd res" where
  "enter_system st0 =
     (let st = st0\<lparr>mode := SYSTEM\<rparr>;
          st = clear st;
          st = st\<lparr>cgram := load_icons SYSTEM_ICONS (cgram st)\<rparr>
      in then_do (write_icon_prefix_line 0 0 (lit ''System Mode'') st)
           (write_icon_prefix_line 1 2 (lit ''Loading...'')))"

definition enter_screen :: "lcd \<Rightarrow> lcd res" where
  "enter_screen st0 =
     (let st = st0\<lparr>mode := SCREEN\<rparr>;
          st = clear st
      in then_do (write_line 0 (pad16 (lit ''Screen Mirror'')) st)
           (write_line 1 (pad16 (lit ''Running''))))"

definition set_mode_by_num :: "int \<Rightarrow> lcd \<Rightarrow> lcd res" where
  "set_mode_by_num m st =
     (if m = 1 then enter_visit st
      else if m = 3 then enter_music st
      else if m = 4 then enter_clock st
      else if m = 5 then enter_text st
      else if m = 7 then enter_system st
      else if m = 8 then enter_screen st
      else Ok st)"

text \<open>
  \<open>scroll_text_line_icon\<close> reads and writes one of the two scroll cursors, named by
  the string \<open>idx_attr\<close> in the source.
\<close>

datatype idx_attr = Scroll_i_top | Scroll_i_bottom

fun getattr :: "idx_attr \<Rightarrow> lcd \<Rightarrow> int" where
  "getattr Scroll_i_top st = scroll_i_top st"
| "getattr Scroll_i_bottom st = scroll_i_bottom st"

fun setattr :: "idx_attr \<Rightarrow> int \<Rightarrow> lcd \<Rightarrow> lcd" where
  "setattr Scroll_i_top v st = st\<lparr>scroll_i_top := v\<rparr>"
| "setattr Scroll_i_bottom v st = st\<lparr>scroll_i_bottom := v\<rparr>"

definition scroll_text_line_icon :: "nat \<Rightarrow> pystr \<Rightarrow> idx_attr \<Rightarrow> int \<Rightarrow> lcd \<Rightarrow> lcd res" where
  "scroll_text_line_icon row text0 attr icon_index st =
     (let avail = 14;
          idx = getattr attr st
      in if length text0 \<le> avail then
           then_do (write_icon_prefix_line row icon_index text0 st) (\<lambda>st.
           Ok (setattr attr 0 st))
         else
           (let buf = text0 @ lit ''    '';
                pos = idx mod int (length buf);
                seg = map (\<lambda>i. buf ! nat ((pos + int i) mod int (length buf))) [0..<avail]
            in then_do (write_icon_prefix_line row icon_index seg st) (\<lambda>st.
               Ok (setattr attr (idx + 1) st))))"

text \<open>
  The bodies of the \<open>try\<close> blocks of \<open>handle_cmd\<close>, one for each tag. \<open>now\<close> is the
  value of \<open>time.time()\<close>; the floating-point clock is modelled by a real number.
\<close>

definition mode_cmd :: "(nat \<Rightarrow> pystr \<Rightarrow> int option) \<Rightarrow> pystr \<Rightarrow> lcd \<Rightarrow> lcd res" where
  "mode_cmd pint cmd st =
     (case pint 10 (drop 5 cmd) of
        None \<Rightarrow> Raise ValueError st
      | Some m \<Rightarrow> set_mode_by_num m st)"

definition live_cmd :: "(nat \<Rightarrow> pystr \<Rightarrow> int option) \<Rightarrow> real \<Rightarrow> pystr \<Rightarrow> lcd \<Rightarrow> lcd res" where
  "live_cmd pint now cmd st =
     (let comma = py_find cmd 44
      in case pint 10 (py_slice cmd 5 comma) of
           None \<Rightarrow> Raise ValueError st
         | Some astro \<Rightarrow>
             (case pint 10 (py_slice_from cmd (comma + 1)) of
                None \<Rightarrow> Raise ValueError st
              | Some core \<Rightarrow>
                  if mode st = VISIT then
                    then_do (draw_visit_header_counts astro core st) (\<lambda>st.
                      (let st = st\<lparr>box_step := 0\<rparr>;
                           st = st\<lparr>visit_anim_active := True\<rparr>;
                           st = st\<lparr>last_anim := now\<rparr>
                       in with_ddram st (set_cell 1 15 (box_step st) (ddram st))))
                  else Ok st))"

definition clock_cmd :: "(pystr \<Rightarrow> pystr) \<Rightarrow> pystr \<Rightarrow> lcd \<Rightarrow> lcd res" where
  "clock_cmd ud cmd st =
     (let body = drop 6 cmd;
          (top, bottom) = (if 124 \<in> set body then (before_bar body, after_bar body)
                           else (body, []));
          top = pad16 (clean_string ud top);
          bottom = pad16 (clean_string ud bottom)
      in if mode st = CLOCK then
           then_do (write_line 0 top st) (write_line 1 bottom)
         else Ok st)"

definition music_cmd :: "(pystr \<Rightarrow> pystr) \<Rightarrow> real \<Rightarrow> pystr \<Rightarrow> lcd \<Rightarrow> lcd res" where
  "music_cmd ud now cmd st0 =
     (let body = drop 6 cmd;
          (top, bottom) = (if 124 \<in> set body then (before_bar body, after_bar body)
                           else (body, []));
          top = or_else (clean_string ud top) (lit ''Unknown Title'');
          bottom = or_else (clean_string ud bottom) (lit ''Unknown Artist'');
          st = st0\<lparr>scroll_top := top\<rparr>;
          st = st\<lparr>scroll_bottom := bottom\<rparr>;
          st = st\<lparr>scroll_i_top := 0\<rparr>;
          st = st\<lparr>scroll_i_bottom := 0\<rparr>;
          st = st\<lparr>last_scroll := now\<rparr>
      in if mode st = MUSIC \<and> \<not> volume_overlay st then
           then_do (write_icon_prefix_line 0 0 (take 15 (scroll_top st)) st) (\<lambda>st.
           write_icon_prefix_line 1 1 (take 15 (scroll_bottom st)) st)
         else Ok st)"

definition text_cmd :: "(pystr \<Rightarrow> pystr) \<Rightarrow> pystr \<Rightarrow> lcd \<Rightarrow> lcd res" where
  "text_cmd ud cmd st =
     (let txt = clean_string ud (drop 5 cmd)
      in if mode st = TEXT then
           (let top = pad16 (take 16 txt);
                bottom = (if length txt > 16 then pad16 (take 16 (drop 16 txt)) else pad16 [])
            in then_do (write_line 0 top st) (write_line 1 bottom))
         else Ok st)"

definition vol_cmd :: "(pystr \<Rightarrow> pystr) \<Rightarrow> real \<Rightarrow> pystr \<Rightarrow> lcd \<Rightarrow> lcd res" where
  "vol_cmd ud now cmd st0 =
     (let body = drop 4 cmd;
          (pct_s, dev) = (if 124 \<in> set body then (before_bar body, after_bar body)
                          else (py_strip body, []));
          pct_s = clean_string ud pct_s;
          dev = clean_string ud dev;
          st = st0\<lparr>cgram := load_icons MUSIC_ICONS (cgram st0)\<rparr>;
          st = st\<lparr>volume_overlay := True\<rparr>;
          st = st\<lparr>vol_until := now + 3 / 2\<rparr>;
          line0 = lit ''Volume: '' @ pct_s;
          line1 = or_else dev []
      in then_do (write_icon_prefix_line 0 2 line0 st) (write_icon_prefix_line 1 3 line1))"

text \<open>
  \<open>handle_cmd\<close>: every branch is a \<open>try\<close> block whose handler is
  \<open>except Exception: pass\<close>, followed by \<open>return\<close>.
\<close>

definition handle_cmd ::
  "(nat \<Rightarrow> pystr \<Rightarrow> int option) \<Rightarrow> (pystr \<Rightarrow> pystr) \<Rightarrow> real \<Rightarrow> pystr \<Rightarrow> lcd \<Rightarrow> lcd res" where
  "handle_cmd pint ud now cmd0 st =
     (let cmd = py_strip cmd0
      in if startswith cmd (lit ''MODE:'') then Ok (except_pass (mode_cmd pint cmd st))
         else if startswith cmd (lit ''LIVE:'') then Ok (except_pass (live_cmd pint now cmd st))
         else if startswith cmd (lit ''CLOCK:'') then Ok (except_pass (clock_cmd ud cmd st))
         else if startswith cmd (lit ''MUSIC:'') then Ok (except_pass (music_cmd ud now cmd st))
         else if startswith cmd (lit ''TEXT:'') then Ok (except_pass (text_cmd ud cmd st))
         else if startswith cmd (lit ''VOL:'') then Ok (except_pass (vol_cmd ud now cmd st))
         else Ok st)"

text \<open>\<open>tick\<close>, in the three blocks of the source. It has no exception handler.\<close>

definition overlay_expiry :: "real \<Rightarrow> lcd \<Rightarrow> lcd res" where
  "overlay_expiry now st0 =
     (if volume_overlay st0 \<and> vol_until st0 \<noteq> 0 \<and> now \<ge> vol_until st0 then
        (let st = st0\<lparr>volume_overlay := False\<rparr>
         in if mode st = VISIT then
              (let st = st\<lparr>cgram := visit_bars\<rparr>
               in then_do (draw_visit_header_counts (last_visit_astro st) (last_visit_core st) st)
                    (\<lambda>st. with_ddram st (set_cell 1 15 (box_step st) (ddram st))))
            else if mode st = MUSIC then
              (let st = st\<lparr>cgram := load_icons MUSIC_ICONS (cgram st)\<rparr>
               in then_do (write_icon_prefix_line 0 0 (take 14 (scroll_top st)) st) (\<lambda>st.
                  then_do (write_icon_prefix_line 1 1 (take 14 (scroll_bottom st)) st) (\<lambda>st.
                  Ok (st\<lparr>last_scroll := now\<rparr>))))
            else if mode st = SYSTEM then
              Ok (st\<lparr>cgram := load_icons SYSTEM_ICONS (cgram st)\<rparr>)
            else Ok st)
      else Ok st0)"

definition visit_animation :: "real \<Rightarrow> lcd \<Rightarrow> lcd res" where
  "visit_animation now st =
     (if mode st = VISIT \<and> visit_anim_active st then
        (if now - last_anim st \<ge> anim_interval st then
           then_do (with_ddram st (set_cell 1 15 (box_step st) (ddram st))) (\<lambda>st.
             if box_step st < 7 then Ok (st\<lparr>box_step := box_step st + 1, last_anim := now\<rparr>)
             else Ok (st\<lparr>visit_anim_active := False\<rparr>))
         else Ok st)
      else Ok st)"

definition music_scroll :: "real \<Rightarrow> lcd \<Rightarrow> lcd res" where
  "music_scroll now st =
     (if mode st = MUSIC \<and> \<not> volume_overlay st then
        (if now - last_scroll st \<ge> scroll_interval st then
           then_do (scroll_text_line_icon 0 (scroll_top st) Scroll_i_top 0 st) (\<lambda>st.
           then_do (scroll_text_line_icon 1 (scroll_bottom st) Scroll_i_bottom 1 st) (\<lambda>st.
           Ok (st\<lparr>last_scroll := now\<rparr>)))
         else Ok st)
      else Ok st)"

definition tick :: "real \<Rightarrow> lcd \<Rightarrow> lcd res" where
  "tick now st =
     then_do (overlay_expiry now st) (\<lambda>st.
     then_do (visit_animation now st) (music_scroll now))"

text \<open>
  The row that \<open>write_icon_prefix_line\<close> builds: the glyph code, a space, and the
  text cut or padded to 14 characters.
\<close>

definition icon_line :: "int \<Rightarrow> pystr \<Rightarrow> int list" where
  "icon_line icon s = and icon 255 # 32 # map int (take 14 s @ replicate (14 - length s) 32)"

text \<open>The shape that \<open>__init__\<close> and \<open>clear\<close> give to \<open>ddram\<close>: two rows of 16 cells.\<close>

definition ddram_ok :: "grid \<Rightarrow> bool" where
  "ddram_ok g \<longleftrightarrow> length g = 2 \<and> length (g ! 0) = 16 \<and> length (g ! 1) = 16"

text \<open>
  \<open>loop_lcd_tick\<close> calls \<open>tick\<close> again and again, and an exception ends the loop.
  \<open>ticks\<close> runs \<open>tick\<close> at the given clock values, one call after the other.
\<close>

definition ticks :: "real list \<Rightarrow> lcd \<Rightarrow> lcd res" where
  "ticks ts st = for_each ts tick st"

text \<open>
  What relates a state \<open>s\<close> under the volume overlay to a state \<open>s'\<close> that later ticks
  reach before the overlay expires: the flag, the expiry time, the mode, the caches,
  the glyph bank, row 0 and the first 15 cells of row 1 are the same; all of the state
  is the same unless the mode is \<open>VISIT\<close> with the fill animation running.
\<close>

definition overlay_kept :: "lcd \<Rightarrow> lcd \<Rightarrow> bool" where
  "overlay_kept s s' \<longleftrightarrow>
     volume_overlay s' \<and> vol_until s' = vol_until s \<and> mode s' = mode s \<and>
     ddram_ok (ddram s') \<and> cgram s' = cgram s \<and>
     last_visit_astro s' = last_visit_astro s \<and> last_visit_core s' = last_visit_core s \<and>
     scroll_top s' = scroll_top s \<and> scroll_bottom s' = scroll_bottom s \<and>
     scroll_interval s' = scroll_interval s \<and>
     ddram s' ! 0 = ddram s ! 0 \<and> take 15 (ddram s' ! 1) = take 15 (ddram s ! 1) \<and>
     (mode s \<noteq> VISIT \<or> \<not> visit_anim_active s \<longrightarrow> s' = s)"

section \<open>Dot matrix state (32x8)\<close>

text \<open>
  The field \<open>mode\<close> of \<open>MatrixState\<close> is \<open>mx_mode\<close> here, and \<open>_last_decay\<close> is
  \<open>last_decay\<close>. The levels are Python integers, so \<open>int(v)\<close> leaves them as they are.
  \<open>now\<close> is the value of \<open>time.time()\<close>, a real number in place of the float.
\<close>

datatype matrix_mode = NONE | VU | FB

record matrix =
  mx_mode :: matrix_mode
  pixels :: grid
  vu_levels :: "int list"
  last_decay :: real

definition with_pixels :: "matrix \<Rightarrow> grid res \<Rightarrow> matrix res" where
  "with_pixels m r =
     (case r of Ok g \<Rightarrow> Ok (m\<lparr>pixels := g\<rparr>) | Raise e g \<Rightarrow> Raise e (m\<lparr>pixels := g\<rparr>))"

definition blank_pixels :: grid where
  "blank_pixels = replicate 8 (replicate 32 0)"

text \<open>
  \<open>_render_vu_pixels\<close> clears the pixels and then lights the bottom \<open>h\<close> cells of
  every column; reading a level beyond the end of \<open>vu_levels\<close> raises.
\<close>

definition render_column :: "int list \<Rightarrow> nat \<Rightarrow> grid \<Rightarrow> grid res" where
  "render_column levels x g =
     (if x < length levels then
        (let h = levels ! x
         in for_each [0..<8] (\<lambda>y. set_cell (7 - y) x (if int y < h then 1 else 0)) g)
      else Raise IndexError g)"

definition render_vu_pixels :: "matrix \<Rightarrow> matrix res" where
  "render_vu_pixels m =
     with_pixels m (for_each [0..<32] (render_column (vu_levels m)) blank_pixels)"

definition apply_vu :: "int list \<Rightarrow> real \<Rightarrow> matrix \<Rightarrow> matrix res" where
  "apply_vu levels_0_8 now m0 =
     (let m = m0\<lparr>mx_mode := VU\<rparr>;
          head = take 32 levels_0_8;
          m = m\<lparr>vu_levels := map (\<lambda>v. max 0 (min 8 v)) head
                               @ replicate (nat (32 - int (length head))) 0\<rparr>
      in case render_vu_pixels m of
           Ok m \<Rightarrow> Ok (m\<lparr>last_decay := now\<rparr>)
         | Raise e m \<Rightarrow> Raise e m)"

definition decay_level :: "nat \<Rightarrow> int list \<times> bool \<Rightarrow> (int list \<times> bool) res" where
  "decay_level i = (\<lambda>(levels, changed).
     if i < length levels then
       (if levels ! i > 0 then Ok (levels[i := levels ! i - 1], True)
        else Ok (levels, changed))
     else Raise IndexError (levels, changed))"

definition tick_decay :: "bool \<Rightarrow> int \<Rightarrow> real \<Rightarrow> matrix \<Rightarrow> matrix res" where
  "tick_decay enabled step_ms now m =
     (if mx_mode m \<noteq> VU then Ok m
      else if enabled then Ok (m\<lparr>last_decay := now\<rparr>)
      else if (now - last_decay m) * 1000 < real_of_int step_ms then Ok m
      else
        (let m = m\<lparr>last_decay := now\<rparr>
         in case for_each [0..<32] decay_level (vu_levels m, False) of
              Raise e (levels, changed) \<Rightarrow> Raise e (m\<lparr>vu_levels := levels\<rparr>)
            | Ok (levels, changed) \<Rightarrow>
                (let m = m\<lparr>vu_levels := levels\<rparr>
                 in if changed then render_vu_pixels m else Ok m)))"

section \<open>Frame-buffer payloads\<close>

definition fb_row :: "int list \<Rightarrow> nat \<Rightarrow> grid \<Rightarrow> grid res" where
  "fb_row rows y g =
     (if y < length rows then
        (let row = rows ! y
         in for_each [0..<32]
              (\<lambda>x. set_cell y x (if and (drop_bit (31 - x) row) 1 \<noteq> 0 then 1 else 0)) g)
      else Raise IndexError g)"

definition fb_body :: "(nat \<Rightarrow> pystr \<Rightarrow> int option) \<Rightarrow> pystr \<Rightarrow> matrix \<Rightarrow> matrix res" where
  "fb_body pint hex_payload m =
     (case those (map (\<lambda>i. pint 16 (take 8 (drop (i * 8) hex_payload))) [0..<8]) of
        None \<Rightarrow> Raise ValueError m
      | Some rows \<Rightarrow> with_pixels m (for_each [0..<8] (fb_row rows) (pixels m)))"

definition apply_fb_payload :: "(nat \<Rightarrow> pystr \<Rightarrow> int option) \<Rightarrow> pystr \<Rightarrow> matrix \<Rightarrow> matrix" where
  "apply_fb_payload pint hex_payload m0 =
     (if length hex_payload < 8 * 8 then m0
      else
        (let m = m0\<lparr>mx_mode := FB\<rparr>;
             m = m\<lparr>pixels := blank_pixels\<rparr>
         in except_pass (fb_body pint hex_payload m)))"

text \<open>The state built by \<open>__init__\<close> at time \<open>now\<close>.\<close>

definition matrix_init :: "real \<Rightarrow> matrix" where
  "matrix_init now =
     \<lparr>mx_mode = NONE, pixels = blank_pixels, vu_levels = replicate 32 0, last_decay = now\<rparr>"

section \<open>Backend: the three exclusive feature toggles\<close>

text \<open>
  The part of \<open>Backend\<close> that the toggles read and write: the three feature flags,
  the worker's signal flags (\<open>set\<close> is \<open>True\<close>, \<open>clear\<close> is \<open>False\<close>) and the
  lines handed to \<open>send_to_device\<close>, oldest first. \<open>send_to_device\<close> writes the
  line to the serial link and mirrors it into the emulators; it reads and writes none
  of the flags, so it is modelled by the trace of its arguments.
\<close>

record backend =
  CHANNEL_ENABLED :: bool
  AUDIO_MODE_ENABLED :: bool
  LOGO_ENABLED :: bool
  vu_channel_enabled :: bool
  vu_audio_mode_enabled :: bool
  vu_rebind :: bool
  sent :: "pystr list"

definition send_to_device :: "pystr \<Rightarrow> backend \<Rightarrow> backend" where
  "send_to_device line b = b\<lparr>sent := sent b @ [line]\<rparr>"

definition toggle_channel_mode :: "backend \<Rightarrow> backend" where
  "toggle_channel_mode b0 =
     (let b = b0\<lparr>CHANNEL_ENABLED := \<not> CHANNEL_ENABLED b0\<rparr>
      in if CHANNEL_ENABLED b then
           (let b = b\<lparr>LOGO_ENABLED := False\<rparr>;
                b = b\<lparr>AUDIO_MODE_ENABLED := False\<rparr>;
                b = b\<lparr>vu_audio_mode_enabled := False\<rparr>;
                b = send_to_device (lit ''CHANNEL:ON'') b;
                b = b\<lparr>vu_channel_enabled := True\<rparr>
            in b\<lparr>vu_rebind := True\<rparr>)
         else
           (let b = send_to_device (lit ''CHANNEL:OFF'') b
            in b\<lparr>vu_channel_enabled := False\<rparr>))"

definition toggle_audio_mode :: "backend \<Rightarrow> backend" where
  "toggle_audio_mode b0 =
     (let b = b0\<lparr>AUDIO_MODE_ENABLED := \<not> AUDIO_MODE_ENABLED b0\<rparr>
      in if AUDIO_MODE_ENABLED b then
           (let b = b\<lparr>LOGO_ENABLED := False\<rparr>;
                b = b\<lparr>CHANNEL_ENABLED := False\<rparr>;
                b = b\<lparr>vu_channel_enabled := False\<rparr>;
                b = send_to_device (lit ''AUDIO:ON'') b;
                b = b\<lparr>vu_audio_mode_enabled := True\<rparr>
            in b\<lparr>vu_rebind := True\<rparr>)
         else
           (let b = send_to_device (lit ''AUDIO:OFF'') b
            in b\<lparr>vu_audio_mode_enabled := False\<rparr>))"

definition toggle_logo_mode :: "backend \<Rightarrow> backend" where
  "toggle_logo_mode b0 =
     (let b = b0\<lparr>LOGO_ENABLED := \<not> LOGO_ENABLED b0\<rparr>
      in if LOGO_ENABLED b then
           (let b = b\<lparr>CHANNEL_ENABLED := False\<rparr>;
                b = b\<lparr>AUDIO_MODE_ENABLED := False\<rparr>;
                b = b\<lparr>vu_channel_enabled := False\<rparr>;
                b = b\<lparr>vu_audio_mode_enabled := False\<rparr>
            in send_to_device (lit ''LOGO:ON'') b)
         else send_to_device (lit ''LOGO:OFF'') b)"

text \<open>A call of one of the three toggles, and a sequence of such calls.\<close>

datatype toggle_call = Toggle_channel | Toggle_audio | Toggle_logo

fun call_toggle :: "toggle_call \<Rightarrow> backend \<Rightarrow> backend" where
  "call_toggle Toggle_channel b = toggle_channel_mode b"
| "call_toggle Toggle_audio b = toggle_audio_mode b"
| "call_toggle Toggle_logo b = toggle_logo_mode b"

definition call_toggles :: "toggle_call list \<Rightarrow> backend \<Rightarrow> backend" where
  "call_toggles cs b = fold call_toggle cs b"

definition at_most_one_enabled :: "backend \<Rightarrow> bool" where
  "at_most_one_enabled b \<longleftrightarrow>
     \<not> (CHANNEL_ENABLED b \<and> AUDIO_MODE_ENABLED b) \<and>
     \<not> (CHANNEL_ENABLED b \<and> LOGO_ENABLED b) \<and>
     \<not> (AUDIO_MODE_ENABLED b \<and> LOGO_ENABLED b)"

definition backend_init :: backend where
  "backend_init =
     \<lparr>CHANNEL_ENABLED = False, AUDIO_MODE_ENABLED = False, LOGO_ENABLED = False,
      vu_channel_enabled = False, vu_audio_mode_enabled = False, vu_rebind = False,
      sent = []\<rparr>"

section \<open>Properties of \<open>pad16\<close>\<close>

lemma replicate_numeral:
  "replicate (numeral k) x = x # replicate (pred_numeral k) x"
  by (simp add: numeral_eq_Suc)

lemma length_spaces: "length (spaces n) = nat n"
  by (simp add: spaces_def)

text \<open>
  Claim C9. For every string \<open>s\<close>, \<open>pad16 s\<close> has exactly 16 characters; a string
  longer than 16 is cut to its first 16 characters, any other string is followed by
  spaces up to 16 columns; and padding twice is the same as padding once.
\<close>

theorem pad16_spec:
  "length (pad16 s) = 16 \<and>
   (length s > 16 \<longrightarrow> pad16 s = take 16 s) \<and>
   (length s \<le> 16 \<longrightarrow> pad16 s = s @ replicate (16 - length s) 32) \<and>
   pad16 (pad16 s) = pad16 s"
proof -
  have len: "length (pad16 t) = 16" for t
    by (auto simp add: pad16_def Let_def length_spaces)
  have fixed: "length t = 16 \<Longrightarrow> pad16 t = t" for t
    by (simp add: pad16_def spaces_def)
  have long: "length s > 16 \<longrightarrow> pad16 s = take 16 s"
    by (simp add: pad16_def spaces_def)
  have short: "length s \<le> 16 \<longrightarrow> pad16 s = s @ replicate (16 - length s) 32"
    by (auto simp add: pad16_def spaces_def nat_diff_distrib')
  from len fixed long short show ?thesis by blast
qed

theorem pad16_spec_witness:
  "pad16 (lit ''Clock Mode'') = lit ''Clock Mode      '' \<and>
   pad16 (lit ''0123456789abcdefXYZ'') = lit ''0123456789abcdef'' \<and>
   pad16 (pad16 (lit ''Clock Mode'')) = lit ''Clock Mode      ''"
  using pad16_spec [of "lit ''Clock Mode''"] pad16_spec [of "lit ''0123456789abcdefXYZ''"]
  by (simp add: lit_def pad16_def spaces_def replicate_numeral)

section \<open>Properties of the feature toggles\<close>

lemma call_toggle_exclusive:
  "at_most_one_enabled b \<Longrightarrow> at_most_one_enabled (call_toggle c b)"
  by (cases c)
     (auto simp add: at_most_one_enabled_def toggle_channel_mode_def toggle_audio_mode_def
        toggle_logo_mode_def send_to_device_def Let_def)

lemma fold_call_toggle_exclusive:
  "at_most_one_enabled b \<Longrightarrow> at_most_one_enabled (fold call_toggle cs b)"
  by (induction cs arbitrary: b) (simp_all add: call_toggle_exclusive)

text \<open>
  Claim C5. From a state in which at most one of \<open>CHANNEL_ENABLED\<close>,
  \<open>AUDIO_MODE_ENABLED\<close>, \<open>LOGO_ENABLED\<close> holds, every sequence of toggle calls ends in
  such a state. From any state, a toggle called with its own flag off switches that
  flag on and leaves the other two flags off, with the worker signalled accordingly;
  called with its own flag on, it switches that flag off and leaves the other two
  flags as they were.
\<close>

theorem toggles_mutually_exclusive:
  assumes "at_most_one_enabled b"
  shows "at_most_one_enabled (call_toggles cs b) \<and>
         (\<not> CHANNEL_ENABLED b' \<longrightarrow>
            CHANNEL_ENABLED (toggle_channel_mode b') \<and>
            \<not> AUDIO_MODE_ENABLED (toggle_channel_mode b') \<and>
            \<not> LOGO_ENABLED (toggle_channel_mode b') \<and>
            vu_channel_enabled (toggle_channel_mode b') \<and>
            \<not> vu_audio_mode_enabled (toggle_channel_mode b')) \<and>
         (CHANNEL_ENABLED b' \<longrightarrow>
            \<not> CHANNEL_ENABLED (toggle_channel_mode b') \<and>
            AUDIO_MODE_ENABLED (toggle_channel_mode b') = AUDIO_MODE_ENABLED b' \<and>
            LOGO_ENABLED (toggle_channel_mode b') = LOGO_ENABLED b') \<and>
         (\<not> AUDIO_MODE_ENABLED b' \<longrightarrow>
            AUDIO_MODE_ENABLED (toggle_audio_mode b') \<and>
            \<not> CHANNEL_ENABLED (toggle_audio_mode b') \<and>
            \<not> LOGO_ENABLED (toggle_audio_mode b') \<and>
            vu_audio_mode_enabled (toggle_audio_mode b') \<and>
            \<not> vu_channel_enabled (toggle_audio_mode b')) \<and>
         (AUDIO_MODE_ENABLED b' \<longrightarrow>
            \<not> AUDIO_MODE_ENABLED (toggle_audio_mode b') \<and>
            CHANNEL_ENABLED (toggle_audio_mode b') = CHANNEL_ENABLED b' \<and>
            LOGO_ENABLED (toggle_audio_mode b') = LOGO_ENABLED b') \<and>
         (\<not> LOGO_ENABLED b' \<longrightarrow>
            LOGO_ENABLED (toggle_logo_mode b') \<and>
            \<not> CHANNEL_ENABLED (toggle_logo_mode b') \<and>
            \<not> AUDIO_MODE_ENABLED (toggle_logo_mode b') \<and>
            \<not> vu_channel_enabled (toggle_logo_mode b') \<and>
            \<not> vu_audio_mode_enabled (toggle_logo_mode b')) \<and>
         (LOGO_ENABLED b' \<longrightarrow>
            \<not> LOGO_ENABLED (toggle_logo_mode b') \<and>
            CHANNEL_ENABLED (toggle_logo_mode b') = CHANNEL_ENABLED b' \<and>
            AUDIO_MODE_ENABLED (toggle_logo_mode b') = AUDIO_MODE_ENABLED b')"
proof -
  have seq: "at_most_one_enabled (call_toggles cs b)"
    using assms by (simp add: call_toggles_def fold_call_toggle_exclusive)
  have ch_on: "\<not> CHANNEL_ENABLED b' \<longrightarrow>
            CHANNEL_ENABLED (toggle_channel_mode b') \<and>
            \<not> AUDIO_MODE_ENABLED (toggle_channel_mode b') \<and>
            \<not> LOGO_ENABLED (toggle_channel_mode b') \<and>
            vu_channel_enabled (toggle_channel_mode b') \<and>
            \<not> vu_audio_mode_enabled (toggle_channel_mode b')"
    by (simp add: toggle_channel_mode_def send_to_device_def Let_def)
  have ch_off: "CHANNEL_ENABLED b' \<longrightarrow>
            \<not> CHANNEL_ENABLED (toggle_channel_mode b') \<and>
            AUDIO_MODE_ENABLED (toggle_channel_mode b') = AUDIO_MODE_ENABLED b' \<and>
            LOGO_ENABLED (toggle_channel_mode b') = LOGO_ENABLED b'"
    by (simp add: toggle_channel_mode_def send_to_device_def Let_def)
  have au_on: "\<not> AUDIO_MODE_ENABLED b' \<longrightarrow>
            AUDIO_MODE_ENABLED (toggle_audio_mode b') \<and>
            \<not> CHANNEL_ENABLED (toggle_audio_mode b') \<and>
            \<not> LOGO_ENABLED (toggle_audio_mode b') \<and>
            vu_audio_mode_enabled (toggle_audio_mode b') \<and>
            \<not> vu_channel_enabled (toggle_audio_mode b')"
    by (simp add: toggle_audio_mode_def send_to_device_def Let_def)
  have au_off: "AUDIO_MODE_ENABLED b' \<longrightarrow>
            \<not> AUDIO_MODE_ENABLED (toggle_audio_mode b') \<and>
            CHANNEL_ENABLED (toggle_audio_mode b') = CHANNEL_ENABLED b' \<and>
            LOGO_ENABLED (toggle_audio_mode b') = LOGO_ENABLED b'"
    by (simp add: toggle_audio_mode_def send_to_device_def Let_def)
  have lo_on: "\<not> LOGO_ENABLED b' \<longrightarrow>
            LOGO_ENABLED (toggle_logo_mode b') \<and>
            \<not> CHANNEL_ENABLED (toggle_logo_mode b') \<and>
            \<not> AUDIO_MODE_ENABLED (toggle_logo_mode b') \<and>
            \<not> vu_channel_enabled (toggle_logo_mode b') \<and>
            \<not> vu_audio_mode_enabled (toggle_logo_mode b')"
    by (simp add: toggle_logo_mode_def send_to_device_def Let_def)
  have lo_off: "LOGO_ENABLED b' \<longrightarrow>
            \<not> LOGO_ENABLED (toggle_logo_mode b') \<and>
            CHANNEL_ENABLED (toggle_logo_mode b') = CHANNEL_ENABLED b' \<and>
            AUDIO_MODE_ENABLED (toggle_logo_mode b') = AUDIO_MODE_ENABLED b'"
    by (simp add: toggle_logo_mode_def send_to_device_def Let_def)
  from seq ch_on ch_off au_on au_off lo_on lo_off show ?thesis by blast
qed

theorem toggles_mutually_exclusive_witness:
  "at_most_one_enabled backend_init \<and>
   at_most_one_enabled
     (call_toggles [Toggle_channel, Toggle_audio, Toggle_logo, Toggle_logo] backend_init) \<and>
   AUDIO_MODE_ENABLED (toggle_audio_mode backend_init) \<and>
   \<not> CHANNEL_ENABLED (toggle_audio_mode backend_init) \<and>
   CHANNEL_ENABLED (toggle_channel_mode (toggle_audio_mode backend_init)) \<and>
   \<not> AUDIO_MODE_ENABLED (toggle_channel_mode (toggle_audio_mode backend_init)) \<and>
   \<not> LOGO_ENABLED (toggle_channel_mode (toggle_audio_mode backend_init)) \<and>
   \<not> AUDIO_MODE_ENABLED (toggle_audio_mode (toggle_audio_mode backend_init)) \<and>
   LOGO_ENABLED (toggle_logo_mode (toggle_audio_mode backend_init)) \<and>
   \<not> AUDIO_MODE_ENABLED (toggle_logo_mode (toggle_audio_mode backend_init)) \<and>
   CHANNEL_ENABLED (toggle_channel_mode backend_init) \<and>
   AUDIO_MODE_ENABLED (toggle_audio_mode (toggle_channel_mode backend_init)) \<and>
   \<not> CHANNEL_ENABLED (toggle_audio_mode (toggle_channel_mode backend_init)) \<and>
   \<not> CHANNEL_ENABLED (toggle_channel_mode (toggle_channel_mode backend_init)) \<and>
   LOGO_ENABLED (toggle_logo_mode backend_init) \<and>
   \<not> LOGO_ENABLED (toggle_logo_mode (toggle_logo_mode backend_init))"
proof -
  have init: "at_most_one_enabled backend_init"
    by (simp add: at_most_one_enabled_def backend_init_def)
  have flags: "\<not> CHANNEL_ENABLED backend_init" "\<not> AUDIO_MODE_ENABLED backend_init"
    "\<not> LOGO_ENABLED backend_init"
    by (simp_all add: backend_init_def)
  note first = toggles_mutually_exclusive [OF init,
      of "[Toggle_channel, Toggle_audio, Toggle_logo, Toggle_logo]" backend_init]
  from first flags have on: "AUDIO_MODE_ENABLED (toggle_audio_mode backend_init)"
    "\<not> CHANNEL_ENABLED (toggle_audio_mode backend_init)"
    "\<not> LOGO_ENABLED (toggle_audio_mode backend_init)"
    "CHANNEL_ENABLED (toggle_channel_mode backend_init)"
    "\<not> AUDIO_MODE_ENABLED (toggle_channel_mode backend_init)"
    "LOGO_ENABLED (toggle_logo_mode backend_init)"
    by blast+
  show ?thesis
    using init first on
      toggles_mutually_exclusive [OF init, of "[]" "toggle_audio_mode backend_init"]
      toggles_mutually_exclusive [OF init, of "[]" "toggle_channel_mode backend_init"]
      toggles_mutually_exclusive [OF init, of "[]" "toggle_logo_mode backend_init"]
    by blast
qed

section \<open>Properties of the dot matrix\<close>

lemma render_levels_7:
  "for_each [0..<32] (render_column (replicate 32 7)) blank_pixels =
     Ok (replicate 32 0 # replicate 7 (replicate 32 1))"
  by code_simp

lemma render_levels_8:
  "for_each [0..<32] (render_column (replicate 32 8)) blank_pixels =
     Ok (replicate 8 (replicate 32 1))"
  by code_simp

lemma decay_levels_8:
  "for_each [0..<32] decay_level (replicate 32 8, False) = Ok (replicate 32 7, True)"
  by code_simp

lemma clamp_levels_8:
  "map (\<lambda>v. max 0 (min 8 v)) (take 32 (replicate 32 (8::int)))
     @ replicate (nat (32 - int (length (take 32 (replicate 32 (8::int)))))) 0 =
   replicate 32 8"
  by simp

lemma apply_vu_full:
  "apply_vu (replicate 32 8) t0 m =
     Ok (m\<lparr>mx_mode := VU, vu_levels := replicate 32 8,
           pixels := replicate 8 (replicate 32 1), last_decay := t0\<rparr>)"
  unfolding apply_vu_def Let_def clamp_levels_8
  by (simp add: render_vu_pixels_def with_pixels_def render_levels_8)

text \<open>
  Claim C7. \<open>apply_vu([8]*32)\<close> at time \<open>t0\<close> sets all 32 levels to 8 and lights every
  pixel; a \<open>tick_decay\<close> with the feed disabled at a time \<open>t1\<close> at which \<open>step_ms\<close>
  milliseconds have elapsed returns normally with every level at 7 and the pixels
  rendered from these levels (top row dark, the seven rows below lit). From every
  matrix state, \<open>tick_decay\<close> with the feed enabled returns normally and leaves
  \<open>vu_levels\<close> as it was.
\<close>

theorem vu_decay_step:
  "apply_vu (replicate 32 8) t0 m =
     Ok (m\<lparr>mx_mode := VU, vu_levels := replicate 32 8,
           pixels := replicate 8 (replicate 32 1), last_decay := t0\<rparr>) \<and>
   (\<not> (t1 - t0) * 1000 < real_of_int step_ms \<longrightarrow>
      tick_decay False step_ms t1
        (m\<lparr>mx_mode := VU, vu_levels := replicate 32 8,
           pixels := replicate 8 (replicate 32 1), last_decay := t0\<rparr>) =
      Ok (m\<lparr>mx_mode := VU, vu_levels := replicate 32 7,
            pixels := replicate 32 0 # replicate 7 (replicate 32 1), last_decay := t1\<rparr>)) \<and>
   (\<exists>m'. tick_decay True step_ms' now m'' = Ok m' \<and> vu_levels m' = vu_levels m'')"
proof -
  have decay: "\<not> (t1 - t0) * 1000 < real_of_int step_ms \<longrightarrow>
      tick_decay False step_ms t1
        (m\<lparr>mx_mode := VU, vu_levels := replicate 32 8,
           pixels := replicate 8 (replicate 32 1), last_decay := t0\<rparr>) =
      Ok (m\<lparr>mx_mode := VU, vu_levels := replicate 32 7,
            pixels := replicate 32 0 # replicate 7 (replicate 32 1), last_decay := t1\<rparr>)"
    by (simp add: tick_decay_def decay_levels_8 render_vu_pixels_def with_pixels_def
          render_levels_7)
  have fed: "\<exists>m'. tick_decay True step_ms' now m'' = Ok m' \<and> vu_levels m' = vu_levels m''"
    by (simp add: tick_decay_def)
  from apply_vu_full decay fed show ?thesis by blast
qed

theorem vu_decay_step_witness:
  "\<not> ((1::real) - 0) * 1000 < real_of_int 90 \<and>
   tick_decay False 90 1
     ((matrix_init 0)\<lparr>mx_mode := VU, vu_levels := replicate 32 8,
        pixels := replicate 8 (replicate 32 1), last_decay := 0\<rparr>) =
   Ok ((matrix_init 0)\<lparr>mx_mode := VU, vu_levels := replicate 32 7,
         pixels := replicate 32 0 # replicate 7 (replicate 32 1), last_decay := 1\<rparr>)"
  using vu_decay_step [of 0 "matrix_init 0" 1 90] by simp

lemma fb_body_mode: "mx_mode (except_pass (fb_body pint p m)) = mx_mode m"
  by (simp add: fb_body_def with_pixels_def split: option.splits res.splits)

lemma fb_groups_prefix:
  "map (\<lambda>i. pint 16 (take 8 (drop (i * 8) (take 64 p)))) [0..<8] =
   map (\<lambda>i. pint 16 (take 8 (drop (i * 8) p))) [0..<8]"
proof (rule map_cong [OF refl])
  fix i :: nat
  assume "i \<in> set [0..<8]"
  then have "i < 8" by simp
  then have "min 8 (64 - i * 8) = 8" by simp
  then show "pint 16 (take 8 (drop (i * 8) (take 64 p))) = pint 16 (take 8 (drop (i * 8) p))"
    by (simp add: drop_take)
qed

lemma fb_prefix:
  "64 \<le> length p \<Longrightarrow> apply_fb_payload pint p m = apply_fb_payload pint (take 64 p) m"
  by (simp add: apply_fb_payload_def fb_body_def fb_groups_prefix)

lemma fb_rows_all_F:
  "those (map (\<lambda>i. ascii_int 16 (take 8 (drop (i * 8) (replicate 64 70)))) [0..<8]) =
     Some (replicate 8 4294967295)"
  by code_simp

lemma fb_grid_all_F:
  "for_each [0..<8] (fb_row (replicate 8 4294967295)) blank_pixels =
     Ok (replicate 8 (replicate 32 1))"
  by code_simp

lemma fb_body_all_F:
  "fb_body ascii_int (replicate 64 70) m =
     with_pixels m (for_each [0..<8] (fb_row (replicate 8 4294967295)) (pixels m))"
  unfolding fb_body_def fb_rows_all_F by simp

lemma fb_all_F:
  "apply_fb_payload ascii_int (replicate 64 70) m =
     m\<lparr>mx_mode := FB, pixels := replicate 8 (replicate 32 1)\<rparr>"
  unfolding apply_fb_payload_def Let_def fb_body_all_F
  by (simp add: fb_grid_all_F with_pixels_def)

lemma fb_rows_all_G:
  "those (map (\<lambda>i. ascii_int 16 (take 8 (drop (i * 8) (replicate 64 71)))) [0..<8]) = None"
  by code_simp

lemma fb_body_all_G: "fb_body ascii_int (replicate 64 71) m = Raise ValueError m"
  unfolding fb_body_def fb_rows_all_G by simp

lemma fb_all_G:
  "apply_fb_payload ascii_int (replicate 64 71) m =
     m\<lparr>mx_mode := FB, pixels := blank_pixels\<rparr>"
  unfolding apply_fb_payload_def Let_def fb_body_all_G by simp

text \<open>
  The claim C1 as stated fails at two payloads that are not well-formed: 65 times
  \<open>F\<close> (length 65, decoded from its first 64 characters: every pixel lit), and 64
  times \<open>G\<close> (not a hex digit: the mode has become \<open>FB\<close> and the pixels are blank
  before the parse fails). The matrix before the call is in mode \<open>VU\<close> with every
  pixel lit, respectively blank.
\<close>

theorem fb_malformed_counterexample:
  "length (replicate 65 (70::nat)) \<noteq> 64 \<and>
   apply_fb_payload ascii_int (replicate 65 70) (matrix_init 0) \<noteq> matrix_init 0 \<and>
   apply_fb_payload ascii_int (replicate 64 71)
     ((matrix_init 0)\<lparr>mx_mode := VU, pixels := replicate 8 (replicate 32 1)\<rparr>) \<noteq>
     (matrix_init 0)\<lparr>mx_mode := VU, pixels := replicate 8 (replicate 32 1)\<rparr>"
proof -
  have "take 64 (replicate 65 (70::nat)) = replicate 64 70"
    by simp
  then have long: "apply_fb_payload ascii_int (replicate 65 70) (matrix_init 0) =
      (matrix_init 0)\<lparr>mx_mode := FB, pixels := replicate 8 (replicate 32 1)\<rparr>"
    using fb_prefix [of "replicate 65 70" ascii_int "matrix_init 0"] fb_all_F by simp
  have l: "apply_fb_payload ascii_int (replicate 65 70) (matrix_init 0) \<noteq> matrix_init 0"
    unfolding long by (simp add: matrix_init_def)
  have g: "apply_fb_payload ascii_int (replicate 64 71)
      ((matrix_init 0)\<lparr>mx_mode := VU, pixels := replicate 8 (replicate 32 1)\<rparr>) \<noteq>
      (matrix_init 0)\<lparr>mx_mode := VU, pixels := replicate 8 (replicate 32 1)\<rparr>"
    unfolding fb_all_G by (simp add: matrix_init_def)
  from l g show ?thesis by simp
qed

text \<open>
  Claim C1, amended. A payload with fewer than 64 characters leaves the matrix state as
  it was. A payload with 64 characters or more is accepted: the mode becomes \<open>FB\<close>,
  the levels are kept, and the outcome is that of its first 64 characters alone. The
  payload of 64 times \<open>F\<close> puts the matrix in mode \<open>FB\<close> with every one of the 8x32
  pixels at 1.
\<close>

theorem fb_payload_spec:
  "(length p < 64 \<longrightarrow> apply_fb_payload pint p m = m) \<and>
   (64 \<le> length p \<longrightarrow>
      apply_fb_payload pint p m = apply_fb_payload pint (take 64 p) m \<and>
      mx_mode (apply_fb_payload pint p m) = FB \<and>
      vu_levels (apply_fb_payload pint p m) = vu_levels m) \<and>
   apply_fb_payload ascii_int (replicate 64 70) m =
     m\<lparr>mx_mode := FB, pixels := replicate 8 (replicate 32 1)\<rparr>"
proof -
  have short: "length p < 64 \<longrightarrow> apply_fb_payload pint p m = m"
    by (simp add: apply_fb_payload_def)
  have levels: "vu_levels (except_pass (fb_body pint p m')) = vu_levels m'" for m'
    by (simp add: fb_body_def with_pixels_def split: option.splits res.splits)
  have long: "64 \<le> length p \<longrightarrow>
      apply_fb_payload pint p m = apply_fb_payload pint (take 64 p) m \<and>
      mx_mode (apply_fb_payload pint p m) = FB \<and>
      vu_levels (apply_fb_payload pint p m) = vu_levels m"
  proof
    assume len: "64 \<le> length p"
    have "mx_mode (apply_fb_payload pint p m) = FB"
      using len by (simp add: apply_fb_payload_def fb_body_mode)
    moreover have "vu_levels (apply_fb_payload pint p m) = vu_levels m"
      using len by (simp add: apply_fb_payload_def levels)
    ultimately show "apply_fb_payload pint p m = apply_fb_payload pint (take 64 p) m \<and>
      mx_mode (apply_fb_payload pint p m) = FB \<and>
      vu_levels (apply_fb_payload pint p m) = vu_levels m"
      using fb_prefix [OF len] by simp
  qed
  from short long fb_all_F show ?thesis by blast
qed

theorem fb_payload_spec_witness:
  "length (lit ''FFFF'') < 64 \<and>
   apply_fb_payload ascii_int (lit ''FFFF'') (matrix_init 0) = matrix_init 0 \<and>
   64 \<le> length (replicate 65 (70::nat)) \<and>
   mx_mode (apply_fb_payload ascii_int (replicate 65 70) (matrix_init 0)) = FB"
  using fb_payload_spec [of "lit ''FFFF''" ascii_int "matrix_init 0"]
    fb_payload_spec [of "replicate 65 70" ascii_int "matrix_init 0"]
  by (simp add: lit_def)


section \<open>Properties of the serial link\<close>

lemma set_py_strip: "set (py_strip s) \<subseteq> set s"
proof -
  have "set (py_strip s) \<subseteq> set (dropWhile py_isspace s)"
    unfolding py_strip_def py_rstrip_def using set_dropWhileD by fastforce
  also have "\<dots> \<subseteq> set s"
    using set_dropWhileD by fastforce
  finally show ?thesis .
qed

lemma clean_string_printable: "c \<in> set (clean_string ud text) \<Longrightarrow> 32 \<le> c \<and> c \<le> 126"
proof -
  assume "c \<in> set (clean_string ud text)"
  then have "c \<in> set (filter (\<lambda>c. 32 \<le> c \<and> c \<le> 126)
      (ud (map (\<lambda>c. if c = 10 then 32 else c)
        (filter (\<lambda>c. c \<noteq> 13) (filter (\<lambda>c. c \<noteq> 0) text)))))"
    using set_py_strip unfolding clean_string_def Let_def by blast
  then show ?thesis by simp
qed

lemma clean_string_no_newline_end: "\<not> endswith (clean_string ud text) [10]"
proof
  assume e: "endswith (clean_string ud text) [10]"
  let ?s = "clean_string ud text"
  from e have len: "1 \<le> length ?s" and d: "drop (length ?s - 1) ?s = [10]"
    by (simp_all add: endswith_def)
  have "set (drop (length ?s - 1) ?s) \<subseteq> set ?s"
    by (rule set_drop_subset)
  with d have "10 \<in> set ?s" by simp
  then show False using clean_string_printable by fastforce
qed

text \<open>
  Claim C6. When the link is open, \<open>send_line\<close> hands exactly one byte string to the
  port, whatever the text: the sanitized text, all of whose characters are printable
  ASCII (32 to 126, so none is NUL, carriage return or newline), followed by the one
  newline that \<open>send_line\<close> appends.
\<close>

theorem send_line_payload:
  assumes "is_open l"
  shows "\<exists>body. written (snd (send_line ud dev now text l)) = written l @ [body @ [10]] \<and>
           body = clean_string ud text \<and>
           (\<forall>c \<in> set body. 32 \<le> c \<and> c \<le> 126) \<and>
           0 \<notin> set body \<and> 13 \<notin> set body \<and> 10 \<notin> set body"
proof -
  let ?body = "clean_string ud text"
  have printable: "\<forall>c \<in> set ?body. 32 \<le> c \<and> c \<le> 126"
    using clean_string_printable by blast
  then have enc: "encode_ascii_ignore (?body @ [10]) = ?body @ [10]"
    by (auto simp add: encode_ascii_ignore_def filter_id_conv)
  have "written (snd (send_line ud dev now text l)) = written l @ [?body @ [10]]"
    using assms clean_string_no_newline_end [of ud "text"] enc
    by (simp add: send_line_def Let_def)
  moreover have "0 \<notin> set ?body" "13 \<notin> set ?body" "10 \<notin> set ?body"
    using printable by fastforce+
  ultimately show ?thesis using printable by blast
qed

theorem send_line_payload_witness:
  "is_open link_open \<and>
   written (snd (send_line id Device_ok 1 (lit ''  MODE:1'' @ [13, 10, 0]) link_open)) =
     [lit ''MODE:1'' @ [10]]"
proof -
  have o: "is_open link_open"
    by (simp add: is_open_def link_open_def)
  have c: "clean_string id (lit ''  MODE:1'' @ [13, 10, 0]) = lit ''MODE:1''"
    by (simp add: clean_string_def py_strip_def py_rstrip_def py_isspace_def lit_def)
  show ?thesis
    using o send_line_payload [OF o, of id Device_ok 1 "lit ''  MODE:1'' @ [13, 10, 0]"]
    by (simp add: c link_open_def)
qed


section \<open>Properties of \<open>handle_cmd\<close>: which commands take effect\<close>

lemma startswith_shorter:
  assumes "startswith c p" and "length q \<le> length p"
  shows "startswith c q \<longleftrightarrow> take (length q) p = q"
proof -
  have "take (length q) c = take (length q) (take (length p) c)"
    using assms(2) by (simp add: min_def)
  also have "\<dots> = take (length q) p"
    using assms(1) by (simp add: startswith_def)
  finally show ?thesis by (simp add: startswith_def)
qed

lemma live_cmd_other_mode:
  "mode st \<noteq> VISIT \<Longrightarrow> except_pass (live_cmd pint now cmd st) = st"
  by (simp add: live_cmd_def Let_def split: option.splits)

lemma clock_cmd_other_mode:
  "mode st \<noteq> CLOCK \<Longrightarrow> except_pass (clock_cmd ud cmd st) = st"
  by (simp add: clock_cmd_def Let_def split: prod.splits)

lemma text_cmd_other_mode:
  "mode st \<noteq> TEXT \<Longrightarrow> except_pass (text_cmd ud cmd st) = st"
  by (simp add: text_cmd_def Let_def)

lemma music_cmd_other_mode:
  "mode st \<noteq> MUSIC \<Longrightarrow>
   \<exists>t b. except_pass (music_cmd ud now cmd st) =
     st\<lparr>scroll_top := t, scroll_bottom := b, scroll_i_top := 0, scroll_i_bottom := 0,
        last_scroll := now\<rparr>"
  by (cases "124 \<in> set (drop 6 cmd)") (simp_all add: music_cmd_def Let_def, blast+)

lemma handle_live:
  "startswith (py_strip cmd) (lit ''LIVE:'') \<Longrightarrow>
   handle_cmd pint ud now cmd st = Ok (except_pass (live_cmd pint now (py_strip cmd) st))"
  using startswith_shorter [of "py_strip cmd" "lit ''LIVE:''" "lit ''MODE:''"]
  by (simp add: handle_cmd_def Let_def lit_def)

lemma handle_clock:
  "startswith (py_strip cmd) (lit ''CLOCK:'') \<Longrightarrow>
   handle_cmd pint ud now cmd st = Ok (except_pass (clock_cmd ud (py_strip cmd) st))"
  using startswith_shorter [of "py_strip cmd" "lit ''CLOCK:''" "lit ''MODE:''"]
    startswith_shorter [of "py_strip cmd" "lit ''CLOCK:''" "lit ''LIVE:''"]
  by (simp add: handle_cmd_def Let_def lit_def)

lemma handle_music:
  "startswith (py_strip cmd) (lit ''MUSIC:'') \<Longrightarrow>
   handle_cmd pint ud now cmd st = Ok (except_pass (music_cmd ud now (py_strip cmd) st))"
  using startswith_shorter [of "py_strip cmd" "lit ''MUSIC:''" "lit ''MODE:''"]
    startswith_shorter [of "py_strip cmd" "lit ''MUSIC:''" "lit ''LIVE:''"]
    startswith_shorter [of "py_strip cmd" "lit ''MUSIC:''" "lit ''CLOCK:''"]
  by (simp add: handle_cmd_def Let_def lit_def)

lemma handle_text:
  "startswith (py_strip cmd) (lit ''TEXT:'') \<Longrightarrow>
   handle_cmd pint ud now cmd st = Ok (except_pass (text_cmd ud (py_strip cmd) st))"
proof -
  assume t: "startswith (py_strip cmd) (lit ''TEXT:'')"
  have six: "\<not> startswith (py_strip cmd) (lit ''CLOCK:'')"
       "\<not> startswith (py_strip cmd) (lit ''MUSIC:'')"
    using t startswith_shorter [of "py_strip cmd" "lit ''CLOCK:''" "lit ''TEXT:''"]
      startswith_shorter [of "py_strip cmd" "lit ''MUSIC:''" "lit ''TEXT:''"]
    by (auto simp add: lit_def)
  show ?thesis
    using t six startswith_shorter [of "py_strip cmd" "lit ''TEXT:''" "lit ''MODE:''"]
      startswith_shorter [of "py_strip cmd" "lit ''TEXT:''" "lit ''LIVE:''"]
    by (simp add: handle_cmd_def Let_def lit_def)
qed

lemma handle_vol:
  "startswith (py_strip cmd) (lit ''VOL:'') \<Longrightarrow>
   handle_cmd pint ud now cmd st = Ok (except_pass (vol_cmd ud now (py_strip cmd) st))"
proof -
  assume v: "startswith (py_strip cmd) (lit ''VOL:'')"
  have longer: "\<not> startswith (py_strip cmd) (lit ''MODE:'')"
       "\<not> startswith (py_strip cmd) (lit ''LIVE:'')"
       "\<not> startswith (py_strip cmd) (lit ''CLOCK:'')"
       "\<not> startswith (py_strip cmd) (lit ''MUSIC:'')"
       "\<not> startswith (py_strip cmd) (lit ''TEXT:'')"
    using v startswith_shorter [of "py_strip cmd" "lit ''MODE:''" "lit ''VOL:''"]
      startswith_shorter [of "py_strip cmd" "lit ''LIVE:''" "lit ''VOL:''"]
      startswith_shorter [of "py_strip cmd" "lit ''CLOCK:''" "lit ''VOL:''"]
      startswith_shorter [of "py_strip cmd" "lit ''MUSIC:''" "lit ''VOL:''"]
      startswith_shorter [of "py_strip cmd" "lit ''TEXT:''" "lit ''VOL:''"]
    by (auto simp add: lit_def)
  show ?thesis
    using v longer by (simp add: handle_cmd_def Let_def)
qed

text \<open>
  The claim C3 as stated fails for the \<open>MUSIC:\<close> tag: in \<open>VISIT\<close> mode the command
  \<open>MUSIC:a|b\<close> replaces the cached title.
\<close>

theorem music_other_mode_counterexample:
  "mode lcd_init \<noteq> MUSIC \<and>
   handle_cmd ascii_int id 5 (lit ''MUSIC:a|b'') lcd_init \<noteq> Ok lcd_init"
proof -
  have s: "py_strip (lit ''MUSIC:a|b'') = lit ''MUSIC:a|b''"
    by (simp add: py_strip_def py_rstrip_def py_isspace_def lit_def)
  have c: "clean_string id [97] = [97]"
    by (simp add: clean_string_def py_strip_def py_rstrip_def py_isspace_def)
  have "scroll_top (except_pass (music_cmd id 5 (lit ''MUSIC:a|b'') lcd_init)) = [97]"
    by (simp add: music_cmd_def lit_def before_bar_def after_bar_def c or_else_def lcd_init_def)
  moreover have "scroll_top lcd_init = []"
    by (simp add: lcd_init_def)
  ultimately have "except_pass (music_cmd id 5 (lit ''MUSIC:a|b'') lcd_init) \<noteq> lcd_init"
    by auto
  moreover have "startswith (py_strip (lit ''MUSIC:a|b'')) (lit ''MUSIC:'')"
    unfolding s by (simp add: startswith_def lit_def)
  ultimately show ?thesis
    using handle_music [of "lit ''MUSIC:a|b''" ascii_int id 5 lcd_init]
    by (simp add: s lcd_init_def)
qed

text \<open>
  Claim C3, amended. A \<open>LIVE:\<close>, \<open>CLOCK:\<close> or \<open>TEXT:\<close> command received in a mode
  other than its own leaves the whole \<open>LcdState\<close> as it was. A \<open>MUSIC:\<close> command
  received in a mode other than \<open>MUSIC\<close> changes the cached title and artist, the two
  scroll cursors and \<open>last_scroll\<close>, and nothing else: the mode, the character grid and
  the glyph bank stay as they were.
\<close>

theorem mode_specific_commands_frame:
  "(startswith (py_strip cmd) (lit ''LIVE:'') \<and> mode st \<noteq> VISIT \<longrightarrow>
      handle_cmd pint ud now cmd st = Ok st) \<and>
   (startswith (py_strip cmd) (lit ''CLOCK:'') \<and> mode st \<noteq> CLOCK \<longrightarrow>
      handle_cmd pint ud now cmd st = Ok st) \<and>
   (startswith (py_strip cmd) (lit ''TEXT:'') \<and> mode st \<noteq> TEXT \<longrightarrow>
      handle_cmd pint ud now cmd st = Ok st) \<and>
   (startswith (py_strip cmd) (lit ''MUSIC:'') \<and> mode st \<noteq> MUSIC \<longrightarrow>
      (\<exists>t b. handle_cmd pint ud now cmd st =
         Ok (st\<lparr>scroll_top := t, scroll_bottom := b, scroll_i_top := 0,
               scroll_i_bottom := 0, last_scroll := now\<rparr>)))"
  using handle_live [of cmd pint ud now st] live_cmd_other_mode [of st pint now "py_strip cmd"]
    handle_clock [of cmd pint ud now st] clock_cmd_other_mode [of st ud "py_strip cmd"]
    handle_text [of cmd pint ud now st] text_cmd_other_mode [of st ud "py_strip cmd"]
    handle_music [of cmd pint ud now st] music_cmd_other_mode [of st ud now "py_strip cmd"]
  by auto

theorem mode_specific_commands_frame_witness:
  "startswith (py_strip (lit ''CLOCK:12:00|Mon'')) (lit ''CLOCK:'') \<and>
   mode lcd_init \<noteq> CLOCK \<and>
   handle_cmd ascii_int id 5 (lit ''CLOCK:12:00|Mon'') lcd_init = Ok lcd_init \<and>
   startswith (py_strip (lit ''LIVE:1,2'')) (lit ''LIVE:'') \<and>
   mode (lcd_init\<lparr>mode := TEXT\<rparr>) \<noteq> VISIT \<and>
   handle_cmd ascii_int id 5 (lit ''LIVE:1,2'') (lcd_init\<lparr>mode := TEXT\<rparr>) =
     Ok (lcd_init\<lparr>mode := TEXT\<rparr>) \<and>
   startswith (py_strip (lit ''TEXT:hello'')) (lit ''TEXT:'') \<and>
   mode lcd_init \<noteq> TEXT \<and>
   handle_cmd ascii_int id 5 (lit ''TEXT:hello'') lcd_init = Ok lcd_init \<and>
   startswith (py_strip (lit ''MUSIC:a|b'')) (lit ''MUSIC:'') \<and>
   mode lcd_init \<noteq> MUSIC \<and>
   ddram (except_pass (handle_cmd ascii_int id 5 (lit ''MUSIC:a|b'') lcd_init)) =
     ddram lcd_init \<and>
   mode (except_pass (handle_cmd ascii_int id 5 (lit ''MUSIC:a|b'') lcd_init)) = VISIT"
proof -
  have c: "startswith (py_strip (lit ''CLOCK:12:00|Mon'')) (lit ''CLOCK:'')"
    and l: "startswith (py_strip (lit ''LIVE:1,2'')) (lit ''LIVE:'')"
    and t: "startswith (py_strip (lit ''TEXT:hello'')) (lit ''TEXT:'')"
    and u: "startswith (py_strip (lit ''MUSIC:a|b'')) (lit ''MUSIC:'')"
    by (simp_all add: py_strip_def py_rstrip_def py_isspace_def lit_def startswith_def)
  have m: "mode lcd_init \<noteq> CLOCK" "mode (lcd_init\<lparr>mode := TEXT\<rparr>) \<noteq> VISIT"
    "mode lcd_init \<noteq> TEXT" "mode lcd_init \<noteq> MUSIC" "mode lcd_init = VISIT"
    by (simp_all add: lcd_init_def)
  from u m(4)
    mode_specific_commands_frame [of "lit ''MUSIC:a|b''" lcd_init ascii_int id 5]
  obtain tt bb where "handle_cmd ascii_int id 5 (lit ''MUSIC:a|b'') lcd_init =
      Ok (lcd_init\<lparr>scroll_top := tt, scroll_bottom := bb, scroll_i_top := 0,
            scroll_i_bottom := 0, last_scroll := 5\<rparr>)"
    by blast
  then have music: "ddram (except_pass (handle_cmd ascii_int id 5 (lit ''MUSIC:a|b'') lcd_init)) =
      ddram lcd_init"
    "mode (except_pass (handle_cmd ascii_int id 5 (lit ''MUSIC:a|b'') lcd_init)) = VISIT"
    using m(5) by simp_all
  show ?thesis
    using c l t u m music
      mode_specific_commands_frame [of "lit ''CLOCK:12:00|Mon''" lcd_init ascii_int id 5]
      mode_specific_commands_frame [of "lit ''LIVE:1,2''" "lcd_init\<lparr>mode := TEXT\<rparr>"
        ascii_int id 5]
      mode_specific_commands_frame [of "lit ''TEXT:hello''" lcd_init ascii_int id 5]
    by blast
qed

text \<open>
  Claim C10. \<open>handle_cmd\<close> returns normally for every state and every string. A
  \<open>MODE:\<close> command whose argument is not an integer, or is an integer other than 1, 3,
  4, 5, 7 and 8, leaves the state as it was, and so does a command that starts with none
  of the tags \<open>MODE:\<close>, \<open>LIVE:\<close>, \<open>CLOCK:\<close>, \<open>MUSIC:\<close>, \<open>TEXT:\<close>, \<open>VOL:\<close>.
\<close>

theorem handle_cmd_total:
  "(\<exists>st'. handle_cmd pint ud now cmd st = Ok st') \<and>
   (startswith (py_strip cmd) (lit ''MODE:'') \<and>
    (\<forall>m. pint 10 (drop 5 (py_strip cmd)) = Some m \<longrightarrow> m \<notin> {1, 3, 4, 5, 7, 8}) \<longrightarrow>
      handle_cmd pint ud now cmd st = Ok st) \<and>
   (\<not> startswith (py_strip cmd) (lit ''MODE:'') \<and> \<not> startswith (py_strip cmd) (lit ''LIVE:'') \<and>
    \<not> startswith (py_strip cmd) (lit ''CLOCK:'') \<and> \<not> startswith (py_strip cmd) (lit ''MUSIC:'') \<and>
    \<not> startswith (py_strip cmd) (lit ''TEXT:'') \<and> \<not> startswith (py_strip cmd) (lit ''VOL:'') \<longrightarrow>
      handle_cmd pint ud now cmd st = Ok st)"
proof -
  have total: "\<exists>st'. handle_cmd pint ud now cmd st = Ok st'"
    by (simp add: handle_cmd_def Let_def)
  have bad_mode: "startswith (py_strip cmd) (lit ''MODE:'') \<and>
    (\<forall>m. pint 10 (drop 5 (py_strip cmd)) = Some m \<longrightarrow> m \<notin> {1, 3, 4, 5, 7, 8}) \<longrightarrow>
      handle_cmd pint ud now cmd st = Ok st"
    by (auto simp add: handle_cmd_def Let_def mode_cmd_def set_mode_by_num_def
          split: option.splits)
  have no_tag: "\<not> startswith (py_strip cmd) (lit ''MODE:'') \<and>
    \<not> startswith (py_strip cmd) (lit ''LIVE:'') \<and>
    \<not> startswith (py_strip cmd) (lit ''CLOCK:'') \<and> \<not> startswith (py_strip cmd) (lit ''MUSIC:'') \<and>
    \<not> startswith (py_strip cmd) (lit ''TEXT:'') \<and> \<not> startswith (py_strip cmd) (lit ''VOL:'') \<longrightarrow>
      handle_cmd pint ud now cmd st = Ok st"
    by (simp add: handle_cmd_def Let_def)
  from total bad_mode no_tag show ?thesis by blast
qed

theorem handle_cmd_total_witness:
  "startswith (py_strip (lit ''MODE:2'')) (lit ''MODE:'') \<and>
   ascii_int 10 (drop 5 (py_strip (lit ''MODE:2''))) = Some 2 \<and>
   handle_cmd ascii_int id 5 (lit ''MODE:2'') lcd_init = Ok lcd_init \<and>
   startswith (py_strip (lit ''MODE:x'')) (lit ''MODE:'') \<and>
   ascii_int 10 (drop 5 (py_strip (lit ''MODE:x''))) = None \<and>
   handle_cmd ascii_int id 5 (lit ''MODE:x'') lcd_init = Ok lcd_init \<and>
   \<not> startswith (py_strip (lit ''CHANNEL:ON'')) (lit ''CLOCK:'') \<and>
   handle_cmd ascii_int id 5 (lit ''CHANNEL:ON'') lcd_init = Ok lcd_init"
proof -
  have s2: "py_strip (lit ''MODE:2'') = lit ''MODE:2''"
    and sx: "py_strip (lit ''MODE:x'') = lit ''MODE:x''"
    and sc: "py_strip (lit ''CHANNEL:ON'') = lit ''CHANNEL:ON''"
    by (simp_all add: py_strip_def py_rstrip_def py_isspace_def lit_def)
  have p2: "ascii_int 10 (drop 5 (lit ''MODE:2'')) = Some 2"
    and px: "ascii_int 10 (drop 5 (lit ''MODE:x'')) = None"
    by (simp_all add: lit_def ascii_int_def c_isspace_def digit_value_def)
  have tags: "startswith (lit ''MODE:2'') (lit ''MODE:'')"
    "startswith (lit ''MODE:x'') (lit ''MODE:'')"
    "\<not> startswith (lit ''CHANNEL:ON'') (lit ''MODE:'')"
    "\<not> startswith (lit ''CHANNEL:ON'') (lit ''LIVE:'')"
    "\<not> startswith (lit ''CHANNEL:ON'') (lit ''CLOCK:'')"
    "\<not> startswith (lit ''CHANNEL:ON'') (lit ''MUSIC:'')"
    "\<not> startswith (lit ''CHANNEL:ON'') (lit ''TEXT:'')"
    "\<not> startswith (lit ''CHANNEL:ON'') (lit ''VOL:'')"
    by (simp_all add: startswith_def lit_def)
  show ?thesis
    using tags p2 px
      handle_cmd_total [of ascii_int id 5 "lit ''MODE:2''" lcd_init]
      handle_cmd_total [of ascii_int id 5 "lit ''MODE:x''" lcd_init]
      handle_cmd_total [of ascii_int id 5 "lit ''CHANNEL:ON''" lcd_init]
    unfolding s2 sx sc by simp
qed


section \<open>Writing rows of the character grid\<close>

lemma for_each_map: "for_each (map h xs) body s = for_each xs (\<lambda>x. body (h x)) s"
  by (induction xs arbitrary: s) (simp_all split: res.splits)

lemma for_each_enumerate_cells:
  "row < length g \<Longrightarrow> off + length vs \<le> length (g ! row) \<Longrightarrow>
   for_each (enumerate off vs) (\<lambda>(i, v). set_cell row i (f v)) g =
     Ok (g[row := take off (g ! row) @ map f vs @ drop (off + length vs) (g ! row)])"
proof (induction vs arbitrary: off g)
  case Nil
  then show ?case by simp
next
  case (Cons v vs)
  let ?r = "g ! row"
  let ?g1 = "g[row := ?r[off := f v]]"
  from Cons.prems have off: "off < length ?r" by simp
  have step: "set_cell row off (f v) g = Ok ?g1"
    using Cons.prems off by (simp add: set_cell_def)
  have row1: "?g1 ! row = ?r[off := f v]"
    using Cons.prems by simp
  have "for_each (enumerate (Suc off) vs) (\<lambda>(i, v). set_cell row i (f v)) ?g1 =
      Ok (?g1[row := take (Suc off) (?g1 ! row) @ map f vs
            @ drop (Suc off + length vs) (?g1 ! row)])"
    using Cons.prems by (intro Cons.IH) simp_all
  also have "take (Suc off) (?g1 ! row) = take off ?r @ [f v]"
    unfolding row1 using off by (simp add: take_Suc_conv_app_nth)
  also have "drop (Suc off + length vs) (?g1 ! row) = drop (off + length (v # vs)) ?r"
    unfolding row1 by simp
  finally show ?case
    using step by simp
qed

lemma enumerate_range:
  "enumerate off (map f [0..<n]) = map (\<lambda>i. (i + off, f i)) [0..<n]"
proof (rule nth_equalityI)
  show "length (enumerate off (map f [0..<n])) = length (map (\<lambda>i. (i + off, f i)) [0..<n])"
    by simp
next
  fix i
  assume "i < length (enumerate off (map f [0..<n]))"
  then have "i < n" by simp
  then show "enumerate off (map f [0..<n]) ! i = map (\<lambda>i. (i + off, f i)) [0..<n] ! i"
    by (simp add: nth_enumerate_eq)
qed

lemma for_each_range_cells:
  assumes "row < length g" and "off + n \<le> length (g ! row)"
  shows "for_each [0..<n] (\<lambda>i. set_cell row (i + off) (f i)) g =
     Ok (g[row := take off (g ! row) @ map f [0..<n] @ drop (off + n) (g ! row)])"
proof -
  have "for_each [0..<n] (\<lambda>i. set_cell row (i + off) (f i)) g =
      for_each (enumerate off (map f [0..<n])) (\<lambda>(i, v). set_cell row i v) g"
    unfolding enumerate_range by (simp add: for_each_map)
  also have "\<dots> = Ok (g[row := take off (g ! row) @ map (\<lambda>v. v) (map f [0..<n])
      @ drop (off + length (map f [0..<n])) (g ! row)])"
    using assms by (intro for_each_enumerate_cells) simp_all
  finally show ?thesis by simp
qed

lemma take2_update: "2 \<le> length xs \<Longrightarrow> take 2 (xs[0 := a, 1 := b]) = [a, b]"
proof -
  assume "2 \<le> length xs"
  then obtain x y zs where "xs = x # y # zs"
    by (cases xs; cases "tl xs") auto
  then show ?thesis by simp
qed

lemma length_pad16: "length (pad16 s) = 16"
  by (auto simp add: pad16_def Let_def length_spaces)

lemma write_line_row:
  assumes "row < length (ddram st)" and "length (ddram st ! row) = 16"
  shows "write_line row t st = Ok (st\<lparr>ddram := (ddram st)[row := map int (pad16 t)]\<rparr>)"
proof -
  have "for_each (enumerate 0 (pad16 t)) (\<lambda>(i, ch). set_cell row i (int ch)) (ddram st) =
      Ok ((ddram st)[row := take 0 (ddram st ! row) @ map int (pad16 t)
            @ drop (0 + length (pad16 t)) (ddram st ! row)])"
    using assms by (intro for_each_enumerate_cells) (simp_all add: length_pad16)
  then show ?thesis
    using assms by (simp add: write_line_def with_ddram_def length_pad16)
qed

lemma write_icon_prefix_line_row:
  assumes "row < length (ddram st)" and "length (ddram st ! row) = 16"
  shows "write_icon_prefix_line row icon s st =
     Ok (st\<lparr>ddram := (ddram st)[row := icon_line icon s]\<rparr>)"
proof -
  define t where "t = take 14 s @ replicate (14 - length s) 32"
  have t_len: "length t = 14"
    by (auto simp add: t_def)
  have t_eq: "(if 14 < length s then take 14 s else s)
      @ spaces (14 - int (length (if 14 < length s then take 14 s else s))) = t"
    by (auto simp add: t_def spaces_def nat_diff_distrib')
  let ?g = "ddram st"
  let ?g1 = "?g[row := (?g ! row)[0 := and icon 255]]"
  let ?g2 = "?g1[row := (?g1 ! row)[1 := 32]]"
  have c0: "set_cell row 0 (and icon 255) ?g = Ok ?g1"
    using assms by (simp add: set_cell_def)
  have c1: "set_cell row 1 32 ?g1 = Ok ?g2"
    using assms by (simp add: set_cell_def)
  have r2: "?g2 ! row = (?g ! row)[0 := and icon 255, 1 := 32]"
    using assms by simp
  have "for_each [0..<14] (\<lambda>i. set_cell row (i + 2) (int (t ! i))) ?g2 =
      Ok (?g2[row := take 2 (?g2 ! row) @ map (\<lambda>i. int (t ! i)) [0..<14]
            @ drop (2 + 14) (?g2 ! row)])"
    using assms by (intro for_each_range_cells) simp_all
  also have "map (\<lambda>i. int (t ! i)) [0..<14] = map int t"
    using t_len by (simp add: list_eq_iff_nth_eq)
  also have "take 2 (?g2 ! row) = [and icon 255, 32]"
    unfolding r2 using assms(2) by (intro take2_update) simp
  also have "drop (2 + 14) (?g2 ! row) = []"
    unfolding r2 using assms by simp
  finally have cells: "for_each [0..<14] (\<lambda>i. set_cell row (i + 2) (int (t ! i))) ?g2 =
      Ok (?g[row := icon_line icon s])"
    by (simp add: icon_line_def t_def)
  have body: "then_do (set_cell row 0 (and icon 255) ?g) (\<lambda>g.
      then_do (set_cell row 1 32 g) (\<lambda>g.
      for_each [0..<14] (\<lambda>i. set_cell row (i + 2) (int (t ! i))) g)) =
      Ok (?g[row := icon_line icon s])"
    unfolding then_do_def c0 res.case c1 by (rule cells)
  show ?thesis
    unfolding write_icon_prefix_line_def Let_def t_eq body
    by (simp add: with_ddram_def)
qed


section \<open>Scrolling\<close>

lemma scroll_window:
  assumes "0 \<le> pos" and "14 \<le> length buf"
  shows "map (\<lambda>i. buf ! nat ((pos + int i) mod int (length buf))) [0..<14] =
     take 14 (rotate (nat pos) buf)"
proof (rule nth_equalityI)
  show "length (map (\<lambda>i. buf ! nat ((pos + int i) mod int (length buf))) [0..<14]) =
      length (take 14 (rotate (nat pos) buf))"
    using assms by simp
next
  fix i
  assume "i < length (map (\<lambda>i. buf ! nat ((pos + int i) mod int (length buf))) [0..<14])"
  then have i: "i < 14" by simp
  have "nat ((pos + int i) mod int (length buf)) = (nat pos + i) mod length buf"
    using assms(1) by (simp add: nat_mod_distrib nat_add_distrib)
  then show "map (\<lambda>i. buf ! nat ((pos + int i) mod int (length buf))) [0..<14] ! i =
      take 14 (rotate (nat pos) buf) ! i"
    using i assms(2) by (simp add: nth_rotate)
qed

lemma icon_line_14: "length seg = 14 \<Longrightarrow> icon_line icon seg = and icon 255 # 32 # map int seg"
  by (simp add: icon_line_def)

lemma scroll_step_attr:
  assumes "row < length (ddram st)" and "length (ddram st ! row) = 16"
  shows "(length s \<le> 14 \<longrightarrow>
            scroll_text_line_icon row s attr icon st =
              Ok (setattr attr 0
                   (st\<lparr>ddram := (ddram st)
                      [row := and icon 255 # 32 # map int (s @ replicate (14 - length s) 32)]\<rparr>))) \<and>
         (length s > 14 \<longrightarrow>
            scroll_text_line_icon row s attr icon st =
              Ok (setattr attr (getattr attr st + 1)
                   (st\<lparr>ddram := (ddram st)
                      [row := and icon 255 # 32 #
                         map int (take 14
                           (rotate (nat (getattr attr st mod int (length s + 4)))
                              (s @ replicate 4 32)))]\<rparr>)))"
proof (intro conjI impI)
  assume "length s \<le> 14"
  then show "scroll_text_line_icon row s attr icon st =
      Ok (setattr attr 0
           (st\<lparr>ddram := (ddram st)
              [row := and icon 255 # 32 # map int (s @ replicate (14 - length s) 32)]\<rparr>))"
    using assms
    by (simp add: scroll_text_line_icon_def write_icon_prefix_line_row then_do_def icon_line_def)
next
  assume long: "length s > 14"
  define buf where "buf = s @ lit ''    ''"
  define pos where "pos = getattr attr st mod int (length buf)"
  define seg where "seg = map (\<lambda>i. buf ! nat ((pos + int i) mod int (length buf))) [0..<14]"
  have buf_eq: "buf = s @ replicate 4 32"
    by (simp add: buf_def lit_def replicate_numeral)
  have len: "length buf = length s + 4"
    by (simp add: buf_eq)
  have pos0: "0 \<le> pos"
    by (simp add: pos_def len)
  have seg_eq: "seg = take 14 (rotate (nat pos) buf)"
    unfolding seg_def using pos0 long by (intro scroll_window) (simp_all add: len)
  have seg_len: "length seg = 14"
    by (simp add: seg_def)
  have "scroll_text_line_icon row s attr icon st =
      then_do (write_icon_prefix_line row icon seg st) (\<lambda>st.
        Ok (setattr attr (getattr attr st + 1) st))"
    using long
    by (cases attr) (simp_all add: scroll_text_line_icon_def Let_def seg_def pos_def buf_def
          write_icon_prefix_line_row [OF assms] then_do_def)
  also have "\<dots> = Ok (setattr attr (getattr attr st + 1)
      (st\<lparr>ddram := (ddram st)[row := and icon 255 # 32 # map int seg]\<rparr>))"
    by (cases attr)
       (simp_all add: write_icon_prefix_line_row [OF assms] then_do_def icon_line_14 [OF seg_len])
  finally show "scroll_text_line_icon row s attr icon st =
      Ok (setattr attr (getattr attr st + 1)
           (st\<lparr>ddram := (ddram st)
              [row := and icon 255 # 32 #
                 map int (take 14
                   (rotate (nat (getattr attr st mod int (length s + 4)))
                      (s @ replicate 4 32)))]\<rparr>))"
    by (simp add: seg_eq pos_def len buf_eq)
qed

text \<open>
  Claim C8. On a row of 16 cells, a scroll step with a string of at most 14 characters
  writes the glyph, a space and the string itself, padded with spaces to 14 columns,
  and sets its cursor to 0: \<open>scroll_i_top\<close> when called for the title,
  \<open>scroll_i_bottom\<close> when called for the artist. With a longer string \<open>s\<close> it writes
  the glyph, a space and the 14 characters that start at position
  \<open>cursor mod (len(s) + 4)\<close> of the circular buffer \<open>s\<close> followed by four spaces, and
  adds one to that cursor. The other cursor and every other field stay as they were.
\<close>

theorem scroll_step:
  assumes "row < length (ddram st)" and "length (ddram st ! row) = 16"
  shows "(length s \<le> 14 \<longrightarrow>
            scroll_text_line_icon row s Scroll_i_top icon st =
              Ok (st\<lparr>ddram := (ddram st)
                      [row := and icon 255 # 32 # map int (s @ replicate (14 - length s) 32)],
                    scroll_i_top := 0\<rparr>) \<and>
            scroll_text_line_icon row s Scroll_i_bottom icon st =
              Ok (st\<lparr>ddram := (ddram st)
                      [row := and icon 255 # 32 # map int (s @ replicate (14 - length s) 32)],
                    scroll_i_bottom := 0\<rparr>)) \<and>
         (length s > 14 \<longrightarrow>
            scroll_text_line_icon row s Scroll_i_top icon st =
              Ok (st\<lparr>ddram := (ddram st)
                      [row := and icon 255 # 32 #
                         map int (take 14
                           (rotate (nat (scroll_i_top st mod int (length s + 4)))
                              (s @ replicate 4 32)))],
                    scroll_i_top := scroll_i_top st + 1\<rparr>) \<and>
            scroll_text_line_icon row s Scroll_i_bottom icon st =
              Ok (st\<lparr>ddram := (ddram st)
                      [row := and icon 255 # 32 #
                         map int (take 14
                           (rotate (nat (scroll_i_bottom st mod int (length s + 4)))
                              (s @ replicate 4 32)))],
                    scroll_i_bottom := scroll_i_bottom st + 1\<rparr>))"
  using scroll_step_attr [OF assms, of s Scroll_i_top icon]
    scroll_step_attr [OF assms, of s Scroll_i_bottom icon]
  by simp

theorem scroll_step_witness:
  "0 < length (ddram lcd_init) \<and> length (ddram lcd_init ! 0) = 16 \<and>
   length (lit ''Song'') \<le> 14 \<and>
   scroll_text_line_icon 0 (lit ''Song'') Scroll_i_top 0
       (lcd_init\<lparr>scroll_i_top := 3, scroll_i_bottom := 5\<rparr>) =
     Ok (lcd_init\<lparr>scroll_i_top := 0, scroll_i_bottom := 5,
           ddram := [0 # 32 # map int (lit ''Song          ''), replicate 16 32]\<rparr>) \<and>
   scroll_text_line_icon 1 (lit ''Band'') Scroll_i_bottom 1
       (lcd_init\<lparr>scroll_i_top := 3, scroll_i_bottom := 5\<rparr>) =
     Ok (lcd_init\<lparr>scroll_i_top := 3, scroll_i_bottom := 0,
           ddram := [replicate 16 32, 1 # 32 # map int (lit ''Band          '')]\<rparr>) \<and>
   length (lit ''0123456789abcdef'') > 14 \<and>
   scroll_text_line_icon 0 (lit ''0123456789abcdef'') Scroll_i_top 0
       (lcd_init\<lparr>scroll_i_top := 18, scroll_i_bottom := 5\<rparr>) =
     Ok (lcd_init\<lparr>scroll_i_top := 19, scroll_i_bottom := 5,
           ddram := [0 # 32 # map int (lit ''  0123456789ab''), replicate 16 32]\<rparr>) \<and>
   scroll_text_line_icon 1 (lit ''0123456789abcdef'') Scroll_i_bottom 1
       (lcd_init\<lparr>scroll_i_top := 18, scroll_i_bottom := 5\<rparr>) =
     Ok (lcd_init\<lparr>scroll_i_top := 18, scroll_i_bottom := 6,
           ddram := [replicate 16 32, 1 # 32 # map int (lit ''56789abcdef   '')]\<rparr>)"
proof -
  have shape: "0 < length (ddram (lcd_init\<lparr>scroll_i_top := 3, scroll_i_bottom := 5\<rparr>))"
    "length (ddram (lcd_init\<lparr>scroll_i_top := 3, scroll_i_bottom := 5\<rparr>) ! 0) = 16"
    "1 < length (ddram (lcd_init\<lparr>scroll_i_top := 3, scroll_i_bottom := 5\<rparr>))"
    "length (ddram (lcd_init\<lparr>scroll_i_top := 3, scroll_i_bottom := 5\<rparr>) ! 1) = 16"
    "0 < length (ddram (lcd_init\<lparr>scroll_i_top := 18, scroll_i_bottom := 5\<rparr>))"
    "length (ddram (lcd_init\<lparr>scroll_i_top := 18, scroll_i_bottom := 5\<rparr>) ! 0) = 16"
    "1 < length (ddram (lcd_init\<lparr>scroll_i_top := 18, scroll_i_bottom := 5\<rparr>))"
    "length (ddram (lcd_init\<lparr>scroll_i_top := 18, scroll_i_bottom := 5\<rparr>) ! 1) = 16"
    "0 < length (ddram lcd_init)" "length (ddram lcd_init ! 0) = 16"
    by (simp_all add: lcd_init_def blank_ddram_def)
  show ?thesis
    using shape
      scroll_step [OF shape(1,2), of "lit ''Song''" 0]
      scroll_step [OF shape(3,4), of "lit ''Band''" 1]
      scroll_step [OF shape(5,6), of "lit ''0123456789abcdef''" 0]
      scroll_step [OF shape(7,8), of "lit ''0123456789abcdef''" 1]
    by (simp add: lit_def lcd_init_def blank_ddram_def replicate_numeral rotate_drop_take)
qed

section \<open>The \<open>MUSIC:\<close> command\<close>

lemma py_strip_tagged:
  assumes "p \<noteq> []" and "\<not> py_isspace (hd p)" and "\<not> py_isspace (last p)"
  shows "py_strip (p @ a) = p @ py_rstrip a"
proof -
  obtain x p' where p: "p = x # p'"
    using assms(1) by (cases p) auto
  have front: "dropWhile py_isspace (p @ a) = p @ a"
    using assms(2) by (simp add: p)
  have rear: "dropWhile py_isspace (rev p) = rev p"
    using assms(1,3) by (cases "rev p") (auto simp add: last_rev [symmetric] simp del: last_rev)
  have "dropWhile py_isspace (rev a @ rev p) = dropWhile py_isspace (rev a) @ rev p"
  proof (cases "\<forall>c \<in> set (rev a). py_isspace c")
    case True
    then show ?thesis by (simp add: rear dropWhile_append)
  next
    case False
    then show ?thesis by (auto simp add: dropWhile_append)
  qed
  then show ?thesis
    by (simp add: py_strip_def front py_rstrip_def)
qed

lemma before_after_bar:
  assumes "124 \<notin> set t"
  shows "before_bar (t @ 124 # a) = t" and "after_bar (t @ 124 # a) = a"
proof -
  have all: "\<forall>c \<in> set t. c \<noteq> 124"
    using assms by auto
  show "before_bar (t @ 124 # a) = t"
    unfolding before_bar_def using all by (simp add: takeWhile_tail)
  have "dropWhile (\<lambda>c. c \<noteq> 124) (t @ 124 # a) = 124 # a"
    using all by (simp add: dropWhile_append)
  then show "after_bar (t @ 124 # a) = a"
    by (simp add: after_bar_def)
qed

lemma icon_line_take_15: "icon_line icon (take 15 s) = icon_line icon s"
  by (auto simp add: icon_line_def min_def)

lemma two_rows: "length g = 2 \<Longrightarrow> g[0 := r0, Suc 0 := r1] = [r0, r1]"
proof -
  assume "length g = 2"
  then obtain a b where "g = [a, b]"
    by (cases g; cases "tl g") auto
  then show ?thesis by simp
qed

lemma music_cmd_in_mode:
  assumes "mode st = MUSIC" and "\<not> volume_overlay st" and "ddram_ok (ddram st)"
    and "124 \<notin> set title"
  shows "music_cmd ud now (lit ''MUSIC:'' @ title @ 124 # artist) st =
     Ok (st\<lparr>scroll_top := or_else (clean_string ud title) (lit ''Unknown Title''),
           scroll_bottom := or_else (clean_string ud artist) (lit ''Unknown Artist''),
           scroll_i_top := 0, scroll_i_bottom := 0, last_scroll := now,
           ddram := [icon_line 0 (or_else (clean_string ud title) (lit ''Unknown Title'')),
                     icon_line 1 (or_else (clean_string ud artist) (lit ''Unknown Artist''))]\<rparr>)"
proof -
  define T where "T = or_else (clean_string ud title) (lit ''Unknown Title'')"
  define B where "B = or_else (clean_string ud artist) (lit ''Unknown Artist'')"
  define st1 where "st1 = st\<lparr>scroll_top := T, scroll_bottom := B, scroll_i_top := 0,
      scroll_i_bottom := 0, last_scroll := now\<rparr>"
  have body: "drop 6 (lit ''MUSIC:'' @ title @ 124 # artist) = title @ 124 # artist"
    by (simp add: lit_def)
  have shape: "length (ddram st) = 2" "length (ddram st ! 0) = 16" "length (ddram st ! 1) = 16"
    using assms(3) by (simp_all add: ddram_ok_def)
  have w0: "write_icon_prefix_line 0 0 (take 15 T) st1 =
      Ok (st1\<lparr>ddram := (ddram st)[0 := icon_line 0 T]\<rparr>)"
    using shape write_icon_prefix_line_row [of 0 st1 0 "take 15 T"]
    by (simp add: st1_def icon_line_take_15)
  have w1: "write_icon_prefix_line 1 1 (take 15 B) (st1\<lparr>ddram := (ddram st)[0 := icon_line 0 T]\<rparr>) =
      Ok (st1\<lparr>ddram := [icon_line 0 T, icon_line 1 B]\<rparr>)"
    using shape
      write_icon_prefix_line_row [of 1 "st1\<lparr>ddram := (ddram st)[0 := icon_line 0 T]\<rparr>" 1 "take 15 B"]
    by (simp add: icon_line_take_15 two_rows)
  have "music_cmd ud now (lit ''MUSIC:'' @ title @ 124 # artist) st =
      then_do (write_icon_prefix_line 0 0 (take 15 T) st1)
        (\<lambda>st. write_icon_prefix_line 1 1 (take 15 (scroll_bottom st)) st)"
    unfolding music_cmd_def body using assms(1,2,4)
    by (simp add: Let_def before_after_bar T_def B_def st1_def)
  also have "\<dots> = Ok (st1\<lparr>ddram := [icon_line 0 T, icon_line 1 B]\<rparr>)"
    unfolding w0 then_do_def using w1 by (simp add: st1_def)
  finally show ?thesis
    by (simp add: st1_def T_def B_def)
qed

text \<open>
  The claim C4 as stated fails at a title of 18 characters: row 0 holds the glyph, a
  space and the first 14 characters of the title, and the 15th character (\<open>e\<close>) is
  nowhere in the row.
\<close>

theorem music_15_chars_counterexample:
  "mode (lcd_init\<lparr>mode := MUSIC\<rparr>) = MUSIC \<and>
   \<not> volume_overlay (lcd_init\<lparr>mode := MUSIC\<rparr>) \<and>
   ddram (except_pass (handle_cmd ascii_int id 5 (lit ''MUSIC:0123456789abcdefgh|artist'')
            (lcd_init\<lparr>mode := MUSIC\<rparr>))) ! 0 =
     0 # 32 # map int (lit ''0123456789abcd'') \<and>
   int (lit ''0123456789abcdefgh'' ! 14) \<notin>
     set (ddram (except_pass (handle_cmd ascii_int id 5 (lit ''MUSIC:0123456789abcdefgh|artist'')
            (lcd_init\<lparr>mode := MUSIC\<rparr>))) ! 0)"
proof -
  let ?st = "lcd_init\<lparr>mode := MUSIC\<rparr>"
  let ?cmd = "lit ''MUSIC:0123456789abcdefgh|artist''"
  have pre: "mode ?st = MUSIC" "\<not> volume_overlay ?st" "ddram_ok (ddram ?st)"
    by (simp_all add: lcd_init_def ddram_ok_def blank_ddram_def)
  have s: "py_strip ?cmd = ?cmd"
    by (simp add: py_strip_def py_rstrip_def py_isspace_def lit_def)
  have tag: "startswith (py_strip ?cmd) (lit ''MUSIC:'')"
    unfolding s by (simp add: startswith_def lit_def)
  have split: "?cmd = lit ''MUSIC:'' @ lit ''0123456789abcdefgh'' @ 124 # lit ''artist''"
    by (simp add: lit_def)
  have nobar: "124 \<notin> set (lit ''0123456789abcdefgh'')"
    by (simp add: lit_def)
  have c: "clean_string id (lit ''0123456789abcdefgh'') = lit ''0123456789abcdefgh''"
    by (simp add: clean_string_def py_strip_def py_rstrip_def py_isspace_def lit_def)
  have "ddram (except_pass (handle_cmd ascii_int id 5 ?cmd ?st)) ! 0 =
      icon_line 0 (lit ''0123456789abcdefgh'')"
    unfolding handle_music [OF tag] s
    unfolding split music_cmd_in_mode [OF pre nobar] c
    by (simp add: or_else_def lit_def)
  then show ?thesis
    using pre by (simp add: icon_line_def lit_def)
qed

text \<open>
  Claim C4, amended. In \<open>MUSIC\<close> mode with no volume overlay and a grid of two rows
  of 16 cells, the command \<open>MUSIC:<title>|<artist>\<close> (the title without a bar) caches
  the sanitized title and the sanitized artist, or \<open>Unknown Title\<close> and
  \<open>Unknown Artist\<close> where the sanitized string is empty, sets both scroll cursors to 0
  and \<open>last_scroll\<close> to the current time, and writes on row 0 glyph 0, a space and the
  first 14 characters of the cached title, on row 1 glyph 1, a space and the first 14
  characters of the cached artist, each padded with spaces to 14 columns. The artist
  is sanitized after \<open>handle_cmd\<close> has stripped the blanks at the end of the command.
\<close>

theorem music_cmd_renders:
  assumes "mode st = MUSIC" and "\<not> volume_overlay st" and "ddram_ok (ddram st)"
    and "124 \<notin> set title"
  shows "handle_cmd pint ud now (lit ''MUSIC:'' @ title @ [124] @ artist) st =
     (let top = or_else (clean_string ud title) (lit ''Unknown Title'');
          bottom = or_else (clean_string ud (py_rstrip artist)) (lit ''Unknown Artist'')
      in Ok (st\<lparr>scroll_top := top, scroll_bottom := bottom,
               scroll_i_top := 0, scroll_i_bottom := 0, last_scroll := now,
               ddram := [0 # 32 # map int (take 14 top @ replicate (14 - length top) 32),
                         1 # 32 # map int (take 14 bottom @ replicate (14 - length bottom) 32)]\<rparr>))"
proof -
  let ?p = "lit ''MUSIC:'' @ title @ [124]"
  have "py_strip (?p @ artist) = ?p @ py_rstrip artist"
    by (rule py_strip_tagged) (simp_all add: lit_def py_isspace_def)
  then have s: "py_strip (lit ''MUSIC:'' @ title @ [124] @ artist) =
      lit ''MUSIC:'' @ title @ 124 # py_rstrip artist"
    by simp
  have tag: "startswith (py_strip (lit ''MUSIC:'' @ title @ [124] @ artist)) (lit ''MUSIC:'')"
    unfolding s by (simp add: startswith_def)
  show ?thesis
    unfolding handle_music [OF tag] s music_cmd_in_mode [OF assms]
    by (simp add: Let_def icon_line_def)
qed

theorem music_cmd_renders_witness:
  "mode (lcd_init\<lparr>mode := MUSIC\<rparr>) = MUSIC \<and>
   \<not> volume_overlay (lcd_init\<lparr>mode := MUSIC\<rparr>) \<and>
   ddram_ok (ddram (lcd_init\<lparr>mode := MUSIC\<rparr>)) \<and>
   124 \<notin> set (lit ''Song'') \<and>
   handle_cmd ascii_int id 5 (lit ''MUSIC:'' @ lit ''Song'' @ [124] @ lit ''Band '')
       (lcd_init\<lparr>mode := MUSIC\<rparr>) =
     Ok (lcd_init\<lparr>mode := MUSIC, scroll_top := lit ''Song'', scroll_bottom := lit ''Band'',
           scroll_i_top := 0, scroll_i_bottom := 0, last_scroll := 5,
           ddram := [0 # 32 # map int (lit ''Song          ''),
                     1 # 32 # map int (lit ''Band          '')]\<rparr>)"
proof -
  let ?st = "lcd_init\<lparr>mode := MUSIC\<rparr>"
  have pre: "mode ?st = MUSIC" "\<not> volume_overlay ?st" "ddram_ok (ddram ?st)"
    "124 \<notin> set (lit ''Song'')"
    by (simp_all add: lcd_init_def ddram_ok_def blank_ddram_def lit_def)
  have c: "clean_string id (lit ''Song'') = lit ''Song''"
    "clean_string id (py_rstrip (lit ''Band '')) = lit ''Band''"
    by (simp_all add: clean_string_def py_strip_def py_rstrip_def py_isspace_def lit_def)
  show ?thesis
    using pre music_cmd_renders [OF pre, of ascii_int id 5 "lit ''Band ''"]
    unfolding c
    by (simp add: Let_def or_else_def lit_def lcd_init_def replicate_numeral)
qed


section \<open>The volume overlay and its expiry\<close>

lemma range_8: "[0..<8] = [0, 1, 2, 3, 4, 5, 6, 7]"
  by code_simp

lemma load_music_twice:
  "load_icons MUSIC_ICONS (load_icons MUSIC_ICONS cg) = load_icons MUSIC_ICONS cg"
  by (rule ext) (simp add: load_icons_def MUSIC_ICONS_def range_8)

lemma load_system_after_music:
  "load_icons SYSTEM_ICONS (load_icons MUSIC_ICONS cg) = load_icons SYSTEM_ICONS cg"
  by (rule ext) (simp add: load_icons_def MUSIC_ICONS_def SYSTEM_ICONS_def range_8)

lemma icon_line_take_14: "icon_line icon (take 14 s) = icon_line icon s"
  by (auto simp add: icon_line_def min_def)

lemma length_icon_line: "length (icon_line icon s) = 16"
  by (auto simp add: icon_line_def)

lemma vol_cmd_bar:
  assumes "ddram_ok (ddram st)" and "124 \<notin> set pct"
  shows "vol_cmd ud now (lit ''VOL:'' @ pct @ 124 # dev) st =
     Ok (st\<lparr>cgram := load_icons MUSIC_ICONS (cgram st), volume_overlay := True,
           vol_until := now + 3 / 2,
           ddram := [icon_line 2 (lit ''Volume: '' @ clean_string ud pct),
                     icon_line 3 (clean_string ud dev)]\<rparr>)"
proof -
  define st1 where "st1 = st\<lparr>cgram := load_icons MUSIC_ICONS (cgram st), volume_overlay := True,
      vol_until := now + 3 / 2\<rparr>"
  define L0 where "L0 = lit ''Volume: '' @ clean_string ud pct"
  define L1 where "L1 = clean_string ud dev"
  have body: "drop 4 (lit ''VOL:'' @ pct @ 124 # dev) = pct @ 124 # dev"
    by (simp add: lit_def)
  have shape: "length (ddram st) = 2" "length (ddram st ! 0) = 16" "length (ddram st ! 1) = 16"
    using assms(1) by (simp_all add: ddram_ok_def)
  have w0: "write_icon_prefix_line 0 2 L0 st1 = Ok (st1\<lparr>ddram := (ddram st)[0 := icon_line 2 L0]\<rparr>)"
    using shape write_icon_prefix_line_row [of 0 st1 2 L0] by (simp add: st1_def)
  have w1: "write_icon_prefix_line 1 3 L1 (st1\<lparr>ddram := (ddram st)[0 := icon_line 2 L0]\<rparr>) =
      Ok (st1\<lparr>ddram := [icon_line 2 L0, icon_line 3 L1]\<rparr>)"
    using shape
      write_icon_prefix_line_row [of 1 "st1\<lparr>ddram := (ddram st)[0 := icon_line 2 L0]\<rparr>" 3 L1]
    by (simp add: two_rows)
  have "vol_cmd ud now (lit ''VOL:'' @ pct @ 124 # dev) st =
      then_do (write_icon_prefix_line 0 2 L0 st1) (write_icon_prefix_line 1 3 L1)"
    unfolding vol_cmd_def body using assms(2)
    by (simp add: Let_def before_after_bar st1_def L0_def L1_def or_else_def)
  also have "\<dots> = Ok (st1\<lparr>ddram := [icon_line 2 L0, icon_line 3 L1]\<rparr>)"
    unfolding w0 then_do_def using w1 by simp
  finally show ?thesis
    by (simp add: st1_def L0_def L1_def)
qed

lemma handle_vol_bar:
  assumes "ddram_ok (ddram st)" and "124 \<notin> set pct"
  shows "handle_cmd pint ud now (lit ''VOL:'' @ pct @ [124] @ dev) st =
     Ok (st\<lparr>cgram := load_icons MUSIC_ICONS (cgram st), volume_overlay := True,
           vol_until := now + 3 / 2,
           ddram := [icon_line 2 (lit ''Volume: '' @ clean_string ud pct),
                     icon_line 3 (clean_string ud (py_rstrip dev))]\<rparr>)"
proof -
  let ?p = "lit ''VOL:'' @ pct @ [124]"
  have "py_strip (?p @ dev) = ?p @ py_rstrip dev"
    by (rule py_strip_tagged) (simp_all add: lit_def py_isspace_def)
  then have s: "py_strip (lit ''VOL:'' @ pct @ [124] @ dev) =
      lit ''VOL:'' @ pct @ 124 # py_rstrip dev"
    by simp
  have tag: "startswith (py_strip (lit ''VOL:'' @ pct @ [124] @ dev)) (lit ''VOL:'')"
    unfolding s by (simp add: startswith_def)
  show ?thesis
    unfolding handle_vol [OF tag] s vol_cmd_bar [OF assms] by simp
qed

lemma drop_last_cell: "length r = 16 \<Longrightarrow> drop 15 r = [r ! 15]"
proof -
  assume l: "length r = 16"
  have "r ! 15 # drop (Suc 15) r = drop 15 r"
    using l by (intro Cons_nth_drop_Suc) simp
  moreover have "drop (Suc 15) r = []"
    using l by simp
  ultimately show ?thesis by simp
qed

lemma draw_visit_rows:
  assumes "ddram_ok (ddram st)"
  shows "draw_visit_header_counts astro core st =
     Ok (st\<lparr>last_visit_astro := astro, last_visit_core := core,
           ddram := [map int (lit ''Live Visit Count''),
                     map int (take 15
                       ((lit ''ARI:'' @ py_str astro @ lit '' CC:'' @ py_str core)
                          @ replicate (15 - length (lit ''ARI:'' @ py_str astro @ lit '' CC:''
                                                      @ py_str core)) 32))
                       @ [box_step st]]\<rparr>)"
proof -
  define B where "B = lit ''ARI:'' @ py_str astro @ lit '' CC:'' @ py_str core"
  define b15 where "b15 = take 15 (B @ replicate (15 - length B) 32)"
  define st1 where "st1 = st\<lparr>last_visit_astro := astro, last_visit_core := core\<rparr>"
  define top where "top = map int (lit ''Live Visit Count'')"
  have shape: "length (ddram st) = 2" "length (ddram st ! 0) = 16" "length (ddram st ! 1) = 16"
    using assms by (simp_all add: ddram_ok_def)
  have b15_len: "length b15 = 15"
    by (auto simp add: b15_def)
  have b15_eq: "(if 15 < length B then take 15 B else B)
      @ spaces (15 - int (length (if 15 < length B then take 15 B else B))) = b15"
    by (auto simp add: b15_def spaces_def nat_diff_distrib')
  have pad_top: "map int (pad16 (pad16 (lit ''Live Visit Count''))) = top"
    by (simp add: top_def pad16_def lit_def spaces_def)
  have w0: "write_line 0 (pad16 (lit ''Live Visit Count'')) st1 =
      Ok (st1\<lparr>ddram := (ddram st)[0 := top]\<rparr>)"
    using shape write_line_row [of 0 st1 "pad16 (lit ''Live Visit Count'')"]
    unfolding pad_top by (simp add: st1_def)
  let ?g1 = "(ddram st)[0 := top]"
  have "for_each (enumerate 0 b15) (\<lambda>(i, ch). set_cell 1 i (int ch)) ?g1 =
      Ok (?g1[1 := take 0 (?g1 ! 1) @ map int b15 @ drop (0 + length b15) (?g1 ! 1)])"
    using shape by (intro for_each_enumerate_cells) (simp_all add: b15_len)
  also have "drop (0 + length b15) (?g1 ! 1) = [ddram st ! 1 ! 15]"
    using shape by (simp add: b15_len drop_last_cell)
  finally have w1: "for_each (enumerate 0 b15) (\<lambda>(i, ch). set_cell 1 i (int ch)) ?g1 =
      Ok ([top, map int b15 @ [ddram st ! 1 ! 15]])"
    using shape by (simp add: two_rows)
  have w2: "set_cell 1 15 v [top, map int b15 @ [x]] = Ok [top, map int b15 @ [v]]" for v x
    by (simp add: set_cell_def b15_len list_update_append)
  have "draw_visit_header_counts astro core st =
      then_do (write_line 0 (pad16 (lit ''Live Visit Count'')) st1) (\<lambda>st.
      then_do (with_ddram st
                 (for_each (enumerate 0 b15) (\<lambda>(i, ch). set_cell 1 i (int ch)) (ddram st)))
        (\<lambda>st. with_ddram st (set_cell 1 15 (box_step st) (ddram st))))"
    unfolding draw_visit_header_counts_def Let_def B_def [symmetric] b15_eq st1_def
    by simp
  also have "\<dots> = Ok (st1\<lparr>ddram := [top, map int b15 @ [box_step st]]\<rparr>)"
    unfolding w0 then_do_def
    by (simp add: w1 with_ddram_def w2 st1_def del: One_nat_def)
  finally show ?thesis
    by (simp add: st1_def top_def b15_def B_def)
qed

lemma set_last_cell:
  "length xs = 15 \<Longrightarrow> set_cell 1 15 v [r0, xs @ [x]] = Ok [r0, xs @ [v]]"
  by (simp add: set_cell_def list_update_append)

lemma visit_animation_other_mode: "mode st \<noteq> VISIT \<Longrightarrow> visit_animation now st = Ok st"
  by (simp add: visit_animation_def)

lemma music_scroll_other_mode: "mode st \<noteq> MUSIC \<Longrightarrow> music_scroll now st = Ok st"
  by (simp add: music_scroll_def)

lemma music_scroll_just_drawn:
  "last_scroll st = now \<Longrightarrow> 0 < scroll_interval st \<Longrightarrow> music_scroll now st = Ok st"
  by (simp add: music_scroll_def)

lemma visit_animation_same_cell:
  assumes "ddram st = [r0, xs @ [box_step st]]" and "length xs = 15"
  shows "\<exists>st'. visit_animation now st = Ok st' \<and> ddram st' = ddram st \<and>
           cgram st' = cgram st \<and> volume_overlay st' = volume_overlay st \<and>
           mode st' = mode st"
proof -
  have "with_ddram st (set_cell 1 15 (box_step st) (ddram st)) = Ok st"
    unfolding assms(1) set_last_cell [OF assms(2)]
    using assms(1) by (simp add: with_ddram_def)
  then show ?thesis
    by (simp add: visit_animation_def then_do_def)
qed

lemma expiry_visit:
  assumes "volume_overlay ov" and "vol_until ov \<noteq> 0" and "vol_until ov \<le> now"
    and "mode ov = VISIT" and "ddram_ok (ddram ov)"
  shows "\<exists>st'. tick now ov = Ok st' \<and> \<not> volume_overlay st' \<and> cgram st' = visit_bars \<and>
     ddram st' =
       [map int (lit ''Live Visit Count''),
        map int (take 15
          ((lit ''ARI:'' @ py_str (last_visit_astro ov) @ lit '' CC:''
              @ py_str (last_visit_core ov))
             @ replicate (15 - length (lit ''ARI:'' @ py_str (last_visit_astro ov)
                 @ lit '' CC:'' @ py_str (last_visit_core ov))) 32))
          @ [box_step ov]]"
proof -
  define B where "B = lit ''ARI:'' @ py_str (last_visit_astro ov) @ lit '' CC:''
      @ py_str (last_visit_core ov)"
  define xs where "xs = map int (take 15 (B @ replicate (15 - length B) 32))"
  define top where "top = map int (lit ''Live Visit Count'')"
  define s0 where "s0 = ov\<lparr>volume_overlay := False, cgram := visit_bars\<rparr>"
  define s1 where "s1 = s0\<lparr>last_visit_astro := last_visit_astro ov,
      last_visit_core := last_visit_core ov, ddram := [top, xs @ [box_step ov]]\<rparr>"
  have xs_len: "length xs = 15"
    by (auto simp add: xs_def)
  have ok0: "ddram_ok (ddram s0)"
    using assms(5) by (simp add: s0_def)
  have draw: "draw_visit_header_counts (last_visit_astro ov) (last_visit_core ov) s0 = Ok s1"
    unfolding draw_visit_rows [OF ok0] by (simp add: s1_def s0_def top_def xs_def B_def)
  have cell: "with_ddram s1 (set_cell 1 15 (box_step s1) (ddram s1)) = Ok s1"
    by (simp add: s1_def s0_def set_last_cell [OF xs_len] with_ddram_def del: One_nat_def)
  have "overlay_expiry now ov =
      then_do (draw_visit_header_counts (last_visit_astro ov) (last_visit_core ov) s0)
        (\<lambda>st. with_ddram st (set_cell 1 15 (box_step st) (ddram st)))"
    using assms(1-4) by (simp add: overlay_expiry_def Let_def s0_def)
  then have e: "overlay_expiry now ov = Ok s1"
    unfolding draw then_do_def res.case cell .
  have "ddram s1 = [top, xs @ [box_step s1]]"
    by (simp add: s1_def s0_def)
  from visit_animation_same_cell [OF this xs_len, of now]
  obtain s2 where a: "visit_animation now s1 = Ok s2" and keep: "ddram s2 = ddram s1"
    "cgram s2 = cgram s1" "volume_overlay s2 = volume_overlay s1" "mode s2 = mode s1"
    by blast
  have "mode s2 \<noteq> MUSIC"
    using keep(4) assms(4) by (simp add: s1_def s0_def)
  then have m: "music_scroll now s2 = Ok s2"
    by (rule music_scroll_other_mode)
  have "tick now ov = Ok s2"
    by (simp add: tick_def e a m then_do_def)
  then show ?thesis
    using keep by (simp add: s1_def s0_def top_def xs_def B_def)
qed

lemma expiry_music:
  assumes "volume_overlay ov" and "vol_until ov \<noteq> 0" and "vol_until ov \<le> now"
    and "mode ov = MUSIC" and "ddram_ok (ddram ov)" and "0 < scroll_interval ov"
  shows "tick now ov =
     Ok (ov\<lparr>volume_overlay := False, cgram := load_icons MUSIC_ICONS (cgram ov),
           ddram := [icon_line 0 (scroll_top ov), icon_line 1 (scroll_bottom ov)],
           last_scroll := now\<rparr>)"
proof -
  define s0 where "s0 = ov\<lparr>volume_overlay := False, cgram := load_icons MUSIC_ICONS (cgram ov)\<rparr>"
  define s2 where "s2 = s0\<lparr>ddram := [icon_line 0 (scroll_top ov), icon_line 1 (scroll_bottom ov)],
      last_scroll := now\<rparr>"
  have shape: "length (ddram ov) = 2" "length (ddram ov ! 0) = 16" "length (ddram ov ! 1) = 16"
    using assms(5) by (simp_all add: ddram_ok_def)
  have w0: "write_icon_prefix_line 0 0 (take 14 (scroll_top ov)) s0 =
      Ok (s0\<lparr>ddram := (ddram ov)[0 := icon_line 0 (scroll_top ov)]\<rparr>)"
    using shape write_icon_prefix_line_row [of 0 s0 0 "take 14 (scroll_top ov)"]
    by (simp add: s0_def icon_line_take_14)
  have w1: "write_icon_prefix_line 1 1 (take 14 (scroll_bottom ov))
        (s0\<lparr>ddram := (ddram ov)[0 := icon_line 0 (scroll_top ov)]\<rparr>) =
      Ok (s0\<lparr>ddram := [icon_line 0 (scroll_top ov), icon_line 1 (scroll_bottom ov)]\<rparr>)"
    using shape
      write_icon_prefix_line_row [of 1 "s0\<lparr>ddram := (ddram ov)[0 := icon_line 0 (scroll_top ov)]\<rparr>"
        1 "take 14 (scroll_bottom ov)"]
    by (simp add: icon_line_take_14 two_rows)
  have "overlay_expiry now ov =
      then_do (write_icon_prefix_line 0 0 (take 14 (scroll_top ov)) s0) (\<lambda>st.
      then_do (write_icon_prefix_line 1 1 (take 14 (scroll_bottom st)) st) (\<lambda>st.
      Ok (st\<lparr>last_scroll := now\<rparr>)))"
    using assms(1-4) by (simp add: overlay_expiry_def Let_def s0_def)
  also have "\<dots> = Ok s2"
    unfolding w0 then_do_def using w1 by (simp add: s0_def s2_def)
  finally have e: "overlay_expiry now ov = Ok s2" .
  have a: "visit_animation now s2 = Ok s2"
    using assms(4) by (intro visit_animation_other_mode) (simp add: s2_def s0_def)
  have m: "music_scroll now s2 = Ok s2"
    using assms(6) by (intro music_scroll_just_drawn) (simp_all add: s2_def s0_def)
  show ?thesis
    by (simp add: tick_def e a m then_do_def) (simp add: s2_def s0_def)
qed

lemma expiry_system:
  assumes "volume_overlay ov" and "vol_until ov \<noteq> 0" and "vol_until ov \<le> now"
    and "mode ov = SYSTEM"
  shows "tick now ov =
     Ok (ov\<lparr>volume_overlay := False, cgram := load_icons SYSTEM_ICONS (cgram ov)\<rparr>)"
  using assms
  by (simp add: tick_def overlay_expiry_def visit_animation_def music_scroll_def then_do_def)

lemma expiry_other:
  assumes "volume_overlay ov" and "vol_until ov \<noteq> 0" and "vol_until ov \<le> now"
    and "mode ov \<in> {CLOCK, TEXT, SCREEN}"
  shows "tick now ov = Ok (ov\<lparr>volume_overlay := False\<rparr>)"
  using assms
  by (auto simp add: tick_def overlay_expiry_def visit_animation_def music_scroll_def
        then_do_def)

lemma enter_clock_rows:
  "enter_clock st =
     Ok (st\<lparr>mode := CLOCK,
           ddram := [map int (lit ''Clock Mode      ''), map int (lit ''Loading...      '')]\<rparr>)"
proof -
  define s0 where "s0 = st\<lparr>mode := CLOCK, ddram := blank_ddram\<rparr>"
  have p0: "map int (pad16 (pad16 (lit ''Clock Mode''))) = map int (lit ''Clock Mode      '')"
    and p1: "map int (pad16 (pad16 (lit ''Loading...''))) = map int (lit ''Loading...      '')"
    by (simp_all add: pad16_def lit_def spaces_def replicate_numeral)
  have w0: "write_line 0 (pad16 (lit ''Clock Mode'')) s0 =
      Ok (s0\<lparr>ddram := [map int (lit ''Clock Mode      ''), replicate 16 32]\<rparr>)"
    using write_line_row [of 0 s0 "pad16 (lit ''Clock Mode'')"]
    unfolding p0 by (simp add: s0_def blank_ddram_def)
  have w1: "write_line 1 (pad16 (lit ''Loading...''))
      (s0\<lparr>ddram := [map int (lit ''Clock Mode      ''), replicate 16 32]\<rparr>) =
      Ok (s0\<lparr>ddram := [map int (lit ''Clock Mode      ''),
                         map int (lit ''Loading...      '')]\<rparr>)"
    using write_line_row [of 1 "s0\<lparr>ddram := [map int (lit ''Clock Mode      ''),
        replicate 16 32]\<rparr>" "pad16 (lit ''Loading...'')"]
    unfolding p1 by simp
  have "enter_clock st = then_do (write_line 0 (pad16 (lit ''Clock Mode'')) s0)
      (write_line 1 (pad16 (lit ''Loading...'')))"
    by (simp add: enter_clock_def clear_def s0_def)
  also have "\<dots> = Ok (s0\<lparr>ddram := [map int (lit ''Clock Mode      ''),
      map int (lit ''Loading...      '')]\<rparr>)"
    unfolding w0 then_do_def res.case w1 ..
  finally show ?thesis by (simp add: s0_def)
qed

text \<open>
  The claim C2 as stated fails in \<open>CLOCK\<close> mode. \<open>MODE:4\<close> draws the clock
  placeholder; \<open>VOL:42|Speakers\<close> at time 10 overlays it; the tick at time 12, more
  than 1.5 seconds later, only clears the overlay flag: the grid still shows the volume
  text and the glyph bank still holds the volume icons.
\<close>

theorem overlay_clock_counterexample:
  "handle_cmd ascii_int id 1 (lit ''MODE:4'') lcd_init =
     Ok (lcd_init\<lparr>mode := CLOCK,
           ddram := [map int (lit ''Clock Mode      ''), map int (lit ''Loading...      '')]\<rparr>) \<and>
   handle_cmd ascii_int id 10 (lit ''VOL:42|Speakers'')
       (lcd_init\<lparr>mode := CLOCK,
          ddram := [map int (lit ''Clock Mode      ''), map int (lit ''Loading...      '')]\<rparr>) =
     Ok (lcd_init\<lparr>mode := CLOCK, cgram := load_icons MUSIC_ICONS visit_bars,
           volume_overlay := True, vol_until := 23 / 2,
           ddram := [2 # 32 # map int (lit ''Volume: 42    ''),
                     3 # 32 # map int (lit ''Speakers      '')]\<rparr>) \<and>
   tick 12
       (lcd_init\<lparr>mode := CLOCK, cgram := load_icons MUSIC_ICONS visit_bars,
          volume_overlay := True, vol_until := 23 / 2,
          ddram := [2 # 32 # map int (lit ''Volume: 42    ''),
                    3 # 32 # map int (lit ''Speakers      '')]\<rparr>) =
     Ok (lcd_init\<lparr>mode := CLOCK, cgram := load_icons MUSIC_ICONS visit_bars,
           volume_overlay := False, vol_until := 23 / 2,
           ddram := [2 # 32 # map int (lit ''Volume: 42    ''),
                     3 # 32 # map int (lit ''Speakers      '')]\<rparr>) \<and>
   [2 # 32 # map int (lit ''Volume: 42    ''), 3 # 32 # map int (lit ''Speakers      '')] \<noteq>
     [map int (lit ''Clock Mode      ''), map int (lit ''Loading...      '')]"
proof -
  let ?clock = "lcd_init\<lparr>mode := CLOCK,
      ddram := [map int (lit ''Clock Mode      ''), map int (lit ''Loading...      '')]\<rparr>"
  let ?ov = "lcd_init\<lparr>mode := CLOCK, cgram := load_icons MUSIC_ICONS visit_bars,
      volume_overlay := True, vol_until := 23 / 2,
      ddram := [2 # 32 # map int (lit ''Volume: 42    ''),
                3 # 32 # map int (lit ''Speakers      '')]\<rparr>"
  have s: "py_strip (lit ''MODE:4'') = lit ''MODE:4''"
    by (simp add: py_strip_def py_rstrip_def py_isspace_def lit_def)
  have four: "ascii_int 10 (drop 5 (lit ''MODE:4'')) = Some 4"
    by (simp add: lit_def ascii_int_def c_isspace_def digit_value_def)
  have m: "handle_cmd ascii_int id 1 (lit ''MODE:4'') lcd_init = Ok ?clock"
    by (simp add: handle_cmd_def s Let_def mode_cmd_def four set_mode_by_num_def
          enter_clock_rows)
       (simp add: startswith_def lit_def)
  have ok: "ddram_ok (ddram ?clock)" and nobar: "124 \<notin> set (lit ''42'')"
    by (simp_all add: ddram_ok_def lit_def)
  have c: "clean_string id (lit ''42'') = lit ''42''"
    "clean_string id (py_rstrip (lit ''Speakers'')) = lit ''Speakers''"
    by (simp_all add: clean_string_def py_strip_def py_rstrip_def py_isspace_def lit_def)
  have cmd: "lit ''VOL:42|Speakers'' = lit ''VOL:'' @ lit ''42'' @ [124] @ lit ''Speakers''"
    by (simp add: lit_def)
  have v: "handle_cmd ascii_int id 10 (lit ''VOL:42|Speakers'') ?clock = Ok ?ov"
    unfolding cmd handle_vol_bar [OF ok nobar] c
    by (simp add: icon_line_def lit_def lcd_init_def replicate_numeral)
  have t: "tick 12 ?ov = Ok (?ov\<lparr>volume_overlay := False\<rparr>)"
    by (rule expiry_other) simp_all
  have d: "[2 # 32 # map int (lit ''Volume: 42    ''), 3 # 32 # map int (lit ''Speakers      '')]
      \<noteq> [map int (lit ''Clock Mode      ''), map int (lit ''Loading...      '')]"
    by (simp add: lit_def)
  from m v t d show ?thesis by simp
qed

lemma overlay_kept_refl:
  "volume_overlay s \<Longrightarrow> ddram_ok (ddram s) \<Longrightarrow> overlay_kept s s"
  by (simp add: overlay_kept_def)

lemma overlay_kept_trans:
  "overlay_kept s s' \<Longrightarrow> overlay_kept s' s'' \<Longrightarrow> overlay_kept s s''"
  by (auto simp add: overlay_kept_def)

lemma set_anim_cell:
  assumes "ddram_ok g"
  shows "set_cell 1 15 v g = Ok (g[1 := (g ! 1)[15 := v]])"
    and "ddram_ok (g[1 := (g ! 1)[15 := v]])"
    and "g[1 := (g ! 1)[15 := v]] ! 0 = g ! 0"
    and "take 15 (g[1 := (g ! 1)[15 := v]] ! 1) = take 15 (g ! 1)"
  using assms by (simp_all add: set_cell_def ddram_ok_def)

lemma tick_before_expiry:
  assumes "volume_overlay s" and "now < vol_until s" and "ddram_ok (ddram s)"
  shows "\<exists>s'. tick now s = Ok s' \<and> overlay_kept s s'"
proof -
  have e: "overlay_expiry now s = Ok s"
    using assms(2) by (simp add: overlay_expiry_def)
  have m: "music_scroll now s' = Ok s'" if "volume_overlay s'" for s'
    using that by (simp add: music_scroll_def)
  show ?thesis
  proof (cases "mode s = VISIT \<and> visit_anim_active s \<and> anim_interval s \<le> now - last_anim s")
    case False
    then have "visit_animation now s = Ok s"
      by (auto simp add: visit_animation_def)
    then have "tick now s = Ok s"
      using assms(1) by (simp add: tick_def e then_do_def m)
    then show ?thesis
      using assms(1,3) by (simp add: overlay_kept_refl)
  next
    case True
    define g where "g = (ddram s)[1 := (ddram s ! 1)[15 := box_step s]]"
    define s1 where "s1 = s\<lparr>ddram := g\<rparr>"
    define s2 where "s2 = (if box_step s < 7
        then s1\<lparr>box_step := box_step s + 1, last_anim := now\<rparr>
        else s1\<lparr>visit_anim_active := False\<rparr>)"
    have cell: "with_ddram s (set_cell 1 15 (box_step s) (ddram s)) = Ok s1"
      unfolding set_anim_cell(1) [OF assms(3)] by (simp add: with_ddram_def s1_def g_def)
    have "visit_animation now s =
        then_do (with_ddram s (set_cell 1 15 (box_step s) (ddram s))) (\<lambda>st.
          if box_step st < 7 then Ok (st\<lparr>box_step := box_step st + 1, last_anim := now\<rparr>)
          else Ok (st\<lparr>visit_anim_active := False\<rparr>))"
      using True by (simp add: visit_animation_def)
    then have a: "visit_animation now s = Ok s2"
      unfolding cell then_do_def by (simp add: s2_def s1_def)
    have o2: "volume_overlay s2"
      using assms(1) by (simp add: s2_def s1_def)
    have t: "tick now s = Ok s2"
      by (simp add: tick_def e a then_do_def m [OF o2])
    have "overlay_kept s s2"
      using assms(1,3) True set_anim_cell(2,3,4) [OF assms(3), of "box_step s"]
      by (simp add: overlay_kept_def s2_def s1_def g_def)
    with t show ?thesis by blast
  qed
qed

lemma ticks_before_expiry:
  assumes "volume_overlay s" and "\<forall>t \<in> set ts. t < vol_until s" and "ddram_ok (ddram s)"
  shows "\<exists>s'. ticks ts s = Ok s' \<and> overlay_kept s s'"
  using assms
proof (induction ts arbitrary: s)
  case Nil
  then show ?case by (simp add: ticks_def overlay_kept_refl)
next
  case (Cons t ts)
  from Cons.prems obtain s1 where t1: "tick t s = Ok s1" and k1: "overlay_kept s s1"
    using tick_before_expiry [of s t] by auto
  from k1 Cons.prems have "volume_overlay s1" "\<forall>t \<in> set ts. t < vol_until s1"
    "ddram_ok (ddram s1)"
    by (simp_all add: overlay_kept_def)
  from Cons.IH [OF this] obtain s2 where t2: "ticks ts s1 = Ok s2" and k2: "overlay_kept s1 s2"
    by blast
  have "ticks (t # ts) s = Ok s2"
    using t1 t2 by (simp add: ticks_def)
  with overlay_kept_trans [OF k1 k2] show ?case by blast
qed

text \<open>
  Claim C2, amended. On a grid of two rows of 16 cells, in any mode, the command
  \<open>VOL:<pct>|<device>\<close> at time \<open>t0\<close> overlays at once glyph 2, a space and
  \<open>Volume: <pct>\<close> on row 0, glyph 3, a space and the device on row 1 (each text cut
  or padded to 14 columns), loads the volume icons and sets the overlay flag with
  expiry \<open>t0 + 1.5\<close>. Ticks before the expiry, however many, return normally and keep
  the flag, row 0 and the first 15 cells of row 1; they change nothing at all unless
  the mode is \<open>VISIT\<close> with the fill animation running, where they go on writing the
  animation glyph into column 15 and advancing \<open>box_step\<close>. The first tick at or after
  the expiry, at time \<open>t1\<close>, returns normally with the flag cleared, and what it
  restores depends on the mode: in \<open>VISIT\<close> the bar glyphs and the header drawn from
  the cached counts, with the \<open>box_step\<close> reached by then in column 15; in \<open>MUSIC\<close> the
  music icons and the first 14 characters of the cached title and artist; in
  \<open>SYSTEM\<close> the system icons only, the grid keeping the volume text; in \<open>CLOCK\<close>,
  \<open>TEXT\<close> and \<open>SCREEN\<close> nothing, grid and glyph bank keeping the overlay.
\<close>

theorem vol_overlay_expiry:
  fixes st :: lcd and ud :: "pystr \<Rightarrow> pystr" and t0 t1 :: real and pct dev :: pystr
  defines "ov \<equiv> st\<lparr>cgram := load_icons MUSIC_ICONS (cgram st), volume_overlay := True,
      vol_until := t0 + 3 / 2,
      ddram := [icon_line 2 (lit ''Volume: '' @ clean_string ud pct),
                icon_line 3 (clean_string ud (py_rstrip dev))]\<rparr>"
  assumes "ddram_ok (ddram st)" and "124 \<notin> set pct" and "t0 + 3 / 2 \<noteq> 0"
    and "\<forall>t \<in> set ts. t < t0 + 3 / 2" and "t0 + 3 / 2 \<le> t1"
  shows "handle_cmd pint ud t0 (lit ''VOL:'' @ pct @ [124] @ dev) st = Ok ov \<and>
     ddram ov =
       [2 # 32 # map int (take 14 (lit ''Volume: '' @ clean_string ud pct)
                   @ replicate (14 - length (lit ''Volume: '' @ clean_string ud pct)) 32),
        3 # 32 # map int (take 14 (clean_string ud (py_rstrip dev))
                   @ replicate (14 - length (clean_string ud (py_rstrip dev))) 32)] \<and>
     (\<exists>mid. ticks ts ov = Ok mid \<and> volume_overlay mid \<and>
        ddram mid ! 0 = ddram ov ! 0 \<and> take 15 (ddram mid ! 1) = take 15 (ddram ov ! 1) \<and>
        (mode st \<noteq> VISIT \<or> \<not> visit_anim_active st \<longrightarrow> mid = ov) \<and>
        (mode st = VISIT \<longrightarrow>
           (\<exists>st'. tick t1 mid = Ok st' \<and> \<not> volume_overlay st' \<and> cgram st' = visit_bars \<and>
              ddram st' =
                [map int (lit ''Live Visit Count''),
                 map int (take 15
                   ((lit ''ARI:'' @ py_str (last_visit_astro st) @ lit '' CC:''
                       @ py_str (last_visit_core st))
                      @ replicate (15 - length (lit ''ARI:'' @ py_str (last_visit_astro st)
                          @ lit '' CC:'' @ py_str (last_visit_core st))) 32))
                   @ [box_step mid]])) \<and>
        (mode st = MUSIC \<and> 0 < scroll_interval st \<longrightarrow>
           tick t1 mid =
             Ok (ov\<lparr>volume_overlay := False,
                   ddram := [0 # 32 # map int (take 14 (scroll_top st)
                               @ replicate (14 - length (scroll_top st)) 32),
                             1 # 32 # map int (take 14 (scroll_bottom st)
                               @ replicate (14 - length (scroll_bottom st)) 32)],
                   last_scroll := t1\<rparr>)) \<and>
        (mode st = SYSTEM \<longrightarrow>
           tick t1 mid =
             Ok (ov\<lparr>volume_overlay := False, cgram := load_icons SYSTEM_ICONS (cgram st)\<rparr>)) \<and>
        (mode st \<in> {CLOCK, TEXT, SCREEN} \<longrightarrow>
           tick t1 mid = Ok (ov\<lparr>volume_overlay := False\<rparr>)))"
proof -
  have cmd: "handle_cmd pint ud t0 (lit ''VOL:'' @ pct @ [124] @ dev) st = Ok ov"
    unfolding ov_def by (rule handle_vol_bar [OF assms(2,3)])
  have rows: "ddram ov =
       [2 # 32 # map int (take 14 (lit ''Volume: '' @ clean_string ud pct)
                   @ replicate (14 - length (lit ''Volume: '' @ clean_string ud pct)) 32),
        3 # 32 # map int (take 14 (clean_string ud (py_rstrip dev))
                   @ replicate (14 - length (clean_string ud (py_rstrip dev))) 32)]"
    by (simp add: ov_def icon_line_def)
  have ov_flag: "volume_overlay ov" "vol_until ov = t0 + 3 / 2"
    by (simp_all add: ov_def)
  have ov_ok: "ddram_ok (ddram ov)"
    by (simp add: ov_def ddram_ok_def length_icon_line)
  have same: "mode ov = mode st" "last_visit_astro ov = last_visit_astro st"
    "last_visit_core ov = last_visit_core st" "visit_anim_active ov = visit_anim_active st"
    "scroll_top ov = scroll_top st" "scroll_bottom ov = scroll_bottom st"
    "scroll_interval ov = scroll_interval st"
    by (simp_all add: ov_def)
  from ticks_before_expiry [of ov ts] ov_flag ov_ok assms(5)
  obtain mid where run: "ticks ts ov = Ok mid" and kept: "overlay_kept ov mid"
    by auto
  from kept have mid: "volume_overlay mid" "vol_until mid = t0 + 3 / 2" "mode mid = mode st"
    "ddram_ok (ddram mid)" "last_visit_astro mid = last_visit_astro st"
    "last_visit_core mid = last_visit_core st"
    "ddram mid ! 0 = ddram ov ! 0" "take 15 (ddram mid ! 1) = take 15 (ddram ov ! 1)"
    by (simp_all add: overlay_kept_def ov_flag same)
  from kept have still: "mode st \<noteq> VISIT \<or> \<not> visit_anim_active st \<longrightarrow> mid = ov"
    by (simp add: overlay_kept_def same)
  have flag: "volume_overlay mid" "vol_until mid \<noteq> 0" "vol_until mid \<le> t1"
    using assms(4,6) by (simp_all add: mid)
  have flag_ov: "volume_overlay ov" "vol_until ov \<noteq> 0" "vol_until ov \<le> t1"
    using assms(4,6) by (simp_all add: ov_flag)
  have visit: "mode st = VISIT \<longrightarrow>
        (\<exists>st'. tick t1 mid = Ok st' \<and> \<not> volume_overlay st' \<and> cgram st' = visit_bars \<and>
           ddram st' =
             [map int (lit ''Live Visit Count''),
              map int (take 15
                ((lit ''ARI:'' @ py_str (last_visit_astro st) @ lit '' CC:''
                    @ py_str (last_visit_core st))
                   @ replicate (15 - length (lit ''ARI:'' @ py_str (last_visit_astro st)
                       @ lit '' CC:'' @ py_str (last_visit_core st))) 32))
                @ [box_step mid]])"
    using expiry_visit [OF flag _ mid(4)] unfolding mid(3,5,6) by simp
  have music: "mode st = MUSIC \<and> 0 < scroll_interval st \<longrightarrow>
        tick t1 mid =
          Ok (ov\<lparr>volume_overlay := False,
                ddram := [0 # 32 # map int (take 14 (scroll_top st)
                            @ replicate (14 - length (scroll_top st)) 32),
                          1 # 32 # map int (take 14 (scroll_bottom st)
                            @ replicate (14 - length (scroll_bottom st)) 32)],
                last_scroll := t1\<rparr>)"
  proof
    assume a: "mode st = MUSIC \<and> 0 < scroll_interval st"
    then have eq: "mid = ov" using still by simp
    have "tick t1 ov =
        Ok (ov\<lparr>volume_overlay := False, cgram := load_icons MUSIC_ICONS (cgram ov),
              ddram := [icon_line 0 (scroll_top ov), icon_line 1 (scroll_bottom ov)],
              last_scroll := t1\<rparr>)"
      using a by (intro expiry_music [OF flag_ov _ ov_ok]) (simp_all add: same)
    also have "load_icons MUSIC_ICONS (cgram ov) = cgram ov"
      by (simp add: ov_def load_music_twice)
    finally show "tick t1 mid =
          Ok (ov\<lparr>volume_overlay := False,
                ddram := [0 # 32 # map int (take 14 (scroll_top st)
                            @ replicate (14 - length (scroll_top st)) 32),
                          1 # 32 # map int (take 14 (scroll_bottom st)
                            @ replicate (14 - length (scroll_bottom st)) 32)],
                last_scroll := t1\<rparr>)"
      unfolding eq by (simp add: same icon_line_def)
  qed
  have system: "mode st = SYSTEM \<longrightarrow>
        tick t1 mid =
          Ok (ov\<lparr>volume_overlay := False, cgram := load_icons SYSTEM_ICONS (cgram st)\<rparr>)"
  proof
    assume a: "mode st = SYSTEM"
    then have eq: "mid = ov" using still by simp
    from a have "tick t1 ov =
        Ok (ov\<lparr>volume_overlay := False, cgram := load_icons SYSTEM_ICONS (cgram ov)\<rparr>)"
      by (intro expiry_system [OF flag_ov]) (simp add: same)
    also have "load_icons SYSTEM_ICONS (cgram ov) = load_icons SYSTEM_ICONS (cgram st)"
      by (simp add: ov_def load_system_after_music)
    finally show "tick t1 mid =
        Ok (ov\<lparr>volume_overlay := False, cgram := load_icons SYSTEM_ICONS (cgram st)\<rparr>)"
      unfolding eq .
  qed
  have other: "mode st \<in> {CLOCK, TEXT, SCREEN} \<longrightarrow> tick t1 mid = Ok (ov\<lparr>volume_overlay := False\<rparr>)"
  proof
    assume a: "mode st \<in> {CLOCK, TEXT, SCREEN}"
    then have eq: "mid = ov" using still by auto
    from a show "tick t1 mid = Ok (ov\<lparr>volume_overlay := False\<rparr>)"
      unfolding eq by (intro expiry_other [OF flag_ov]) (simp add: same)
  qed
  from cmd rows run mid(1,7,8) still visit music system other show ?thesis by blast
qed

theorem vol_overlay_expiry_witness:
  "ddram_ok (ddram (lcd_init\<lparr>visit_anim_active := True\<rparr>)) \<and> 124 \<notin> set (lit ''42'') \<and>
   (1 / 10 :: real) + 3 / 2 \<noteq> 0 \<and> (1 :: real) < 1 / 10 + 3 / 2 \<and>
   (1 / 10 :: real) + 3 / 2 \<le> 8 / 5 \<and>
   mode (lcd_init\<lparr>visit_anim_active := True\<rparr>) = VISIT \<and>
   handle_cmd ascii_int id (1 / 10) (lit ''VOL:'' @ lit ''42'' @ [124] @ lit ''Speakers'')
       (lcd_init\<lparr>visit_anim_active := True\<rparr>) =
     Ok (lcd_init\<lparr>visit_anim_active := True,
           cgram := load_icons MUSIC_ICONS (cgram lcd_init), volume_overlay := True,
           vol_until := 1 / 10 + 3 / 2,
           ddram := [icon_line 2 (lit ''Volume: 42''), icon_line 3 (lit ''Speakers'')]\<rparr>) \<and>
   box_step (except_pass (ticks [1]
       (lcd_init\<lparr>visit_anim_active := True,
          cgram := load_icons MUSIC_ICONS (cgram lcd_init), volume_overlay := True,
          vol_until := 1 / 10 + 3 / 2,
          ddram := [icon_line 2 (lit ''Volume: 42''), icon_line 3 (lit ''Speakers'')]\<rparr>))) = 1 \<and>
   ddram (except_pass (tick (8 / 5) (except_pass (ticks [1]
       (lcd_init\<lparr>visit_anim_active := True,
          cgram := load_icons MUSIC_ICONS (cgram lcd_init), volume_overlay := True,
          vol_until := 1 / 10 + 3 / 2,
          ddram := [icon_line 2 (lit ''Volume: 42''), icon_line 3 (lit ''Speakers'')]\<rparr>))))) =
     [map int (lit ''Live Visit Count''), map int (lit ''ARI:0 CC:0     '') @ [1]] \<and>
   mode (lcd_init\<lparr>mode := CLOCK\<rparr>) \<in> {CLOCK, TEXT, SCREEN} \<and>
   ddram (except_pass (tick (8 / 5) (except_pass (ticks [1]
       (lcd_init\<lparr>mode := CLOCK, cgram := load_icons MUSIC_ICONS (cgram lcd_init),
          volume_overlay := True, vol_until := 1 / 10 + 3 / 2,
          ddram := [icon_line 2 (lit ''Volume: 42''), icon_line 3 (lit ''Speakers'')]\<rparr>))))) =
     [icon_line 2 (lit ''Volume: 42''), icon_line 3 (lit ''Speakers'')] \<and>
   mode (lcd_init\<lparr>mode := MUSIC\<rparr>) = MUSIC \<and> 0 < scroll_interval (lcd_init\<lparr>mode := MUSIC\<rparr>) \<and>
   ddram (except_pass (tick (8 / 5) (except_pass (ticks [1]
       (lcd_init\<lparr>mode := MUSIC, cgram := load_icons MUSIC_ICONS (cgram lcd_init),
          volume_overlay := True, vol_until := 1 / 10 + 3 / 2,
          ddram := [icon_line 2 (lit ''Volume: 42''), icon_line 3 (lit ''Speakers'')]\<rparr>))))) =
     [0 # 32 # replicate 14 32, 1 # 32 # replicate 14 32] \<and>
   mode (lcd_init\<lparr>mode := SYSTEM\<rparr>) = SYSTEM \<and>
   cgram (except_pass (tick (8 / 5) (except_pass (ticks [1]
       (lcd_init\<lparr>mode := SYSTEM, cgram := load_icons MUSIC_ICONS (cgram lcd_init),
          volume_overlay := True, vol_until := 1 / 10 + 3 / 2,
          ddram := [icon_line 2 (lit ''Volume: 42''), icon_line 3 (lit ''Speakers'')]\<rparr>))))) =
     load_icons SYSTEM_ICONS (cgram lcd_init)"
proof -
  let ?ov = "lcd_init\<lparr>visit_anim_active := True,
      cgram := load_icons MUSIC_ICONS (cgram lcd_init), volume_overlay := True,
      vol_until := 1 / 10 + 3 / 2,
      ddram := [icon_line 2 (lit ''Volume: 42''), icon_line 3 (lit ''Speakers'')]\<rparr>"
  have ok: "ddram_ok (ddram lcd_init)"
    by (simp add: lcd_init_def ddram_ok_def blank_ddram_def)
  have pre: "ddram_ok (ddram (lcd_init\<lparr>visit_anim_active := True\<rparr>))" "124 \<notin> set (lit ''42'')"
    "(1 / 10 :: real) + 3 / 2 \<noteq> 0" "\<forall>t \<in> set [1 :: real]. t < 1 / 10 + 3 / 2"
    "(1 / 10 :: real) + 3 / 2 \<le> 8 / 5"
    using ok by (simp_all add: lit_def)
  have pre_mode: "ddram_ok (ddram (lcd_init\<lparr>mode := md\<rparr>))" for md
    using ok by simp
  have modes: "mode (lcd_init\<lparr>visit_anim_active := True\<rparr>) = VISIT"
    "mode (lcd_init\<lparr>mode := CLOCK\<rparr>) \<in> {CLOCK, TEXT, SCREEN}"
    "mode (lcd_init\<lparr>mode := MUSIC\<rparr>) = MUSIC" "0 < scroll_interval (lcd_init\<lparr>mode := MUSIC\<rparr>)"
    "mode (lcd_init\<lparr>mode := SYSTEM\<rparr>) = SYSTEM"
    by (simp_all add: lcd_init_def)
  have c: "clean_string id (lit ''42'') = lit ''42''"
    "clean_string id (py_rstrip (lit ''Speakers'')) = lit ''Speakers''"
    by (simp_all add: clean_string_def py_strip_def py_rstrip_def py_isspace_def lit_def)
  have v: "lit ''Volume: '' @ lit ''42'' = lit ''Volume: 42''"
    by (simp add: lit_def)
  have zero: "py_str 0 = lit ''0''"
    by (simp add: py_str_def lit_def)
  have counts: "last_visit_astro (lcd_init\<lparr>visit_anim_active := True\<rparr>) = 0"
    "last_visit_core (lcd_init\<lparr>visit_anim_active := True\<rparr>) = 0"
    "scroll_top (lcd_init\<lparr>mode := MUSIC\<rparr>) = []"
    "scroll_bottom (lcd_init\<lparr>mode := MUSIC\<rparr>) = []"
    by (simp_all add: lcd_init_def)
  have bottom: "take 15 ((lit ''ARI:'' @ lit ''0'' @ lit '' CC:'' @ lit ''0'')
      @ replicate (15 - length (lit ''ARI:'' @ lit ''0'' @ lit '' CC:'' @ lit ''0'')) 32) =
      lit ''ARI:0 CC:0     ''"
    by (simp add: lit_def replicate_numeral)
  have step: "box_step (except_pass (ticks [1] ?ov)) = 1"
    by (simp add: ticks_def tick_def overlay_expiry_def visit_animation_def music_scroll_def
          then_do_def with_ddram_def set_cell_def length_icon_line lcd_init_def)
  note visit = vol_overlay_expiry [where st = "lcd_init\<lparr>visit_anim_active := True\<rparr>"
      and ud = id and ?t0.0 = "1 / 10" and ?t1.0 = "8 / 5" and ts = "[1]"
      and pct = "lit ''42''" and dev = "lit ''Speakers''" and pint = ascii_int, OF pre,
      unfolded c v zero counts bottom]
  from visit modes(1) obtain mid where
    run: "ticks [1] ?ov = Ok mid" and
    rest: "\<exists>st'. tick (8 / 5) mid = Ok st' \<and>
       ddram st' = [map int (lit ''Live Visit Count''),
                    map int (lit ''ARI:0 CC:0     '') @ [box_step mid]]"
    by (auto simp add: lcd_init_def)
  from run step have "box_step mid = 1" by simp
  with rest run have restored: "ddram (except_pass (tick (8 / 5) (except_pass (ticks [1] ?ov)))) =
      [map int (lit ''Live Visit Count''), map int (lit ''ARI:0 CC:0     '') @ [1]]"
    by auto
  have cmd: "handle_cmd ascii_int id (1 / 10) (lit ''VOL:'' @ lit ''42'' @ [124] @ lit ''Speakers'')
       (lcd_init\<lparr>visit_anim_active := True\<rparr>) = Ok ?ov"
    using visit by (simp add: lcd_init_def)
  show ?thesis
    using pre(1,2,3,5) modes cmd step restored
      vol_overlay_expiry [where st = "lcd_init\<lparr>mode := CLOCK\<rparr>" and ud = id
        and ?t0.0 = "1 / 10" and ?t1.0 = "8 / 5" and ts = "[1]"
        and pct = "lit ''42''" and dev = "lit ''Speakers''" and pint = ascii_int,
        OF pre_mode pre(2,3,4,5)]
      vol_overlay_expiry [where st = "lcd_init\<lparr>mode := MUSIC\<rparr>" and ud = id
        and ?t0.0 = "1 / 10" and ?t1.0 = "8 / 5" and ts = "[1]"
        and pct = "lit ''42''" and dev = "lit ''Speakers''" and pint = ascii_int,
        OF pre_mode pre(2,3,4,5)]
      vol_overlay_expiry [where st = "lcd_init\<lparr>mode := SYSTEM\<rparr>" and ud = id
        and ?t0.0 = "1 / 10" and ?t1.0 = "8 / 5" and ts = "[1]"
        and pct = "lit ''42''" and dev = "lit ''Speakers''" and pint = ascii_int,
        OF pre_mode pre(2,3,4,5)]
    unfolding c v counts
    by auto
qed


end
